theory Spec2Isabelle
  imports Main
begin

section \<open>Python strings\<close>

text \<open>
  A Python \<open>str\<close> is modelled as a \<open>string\<close>: every \<open>char\<close> stands for one code
  point below 256, so \<open>length\<close> is Python's \<open>len\<close> on such text. The helpers below are
  the library methods that \<open>orchestrator.py\<close> calls, restricted to that range.
\<close>

definition is_space :: "char \<Rightarrow> bool" where
  \<comment> \<open>\<open>str.isspace\<close> on one character: the characters \<open>strip()\<close> removes\<close>
  "is_space c = (c \<in> set [CHR 0x09, CHR 0x0A, CHR 0x0B, CHR 0x0C, CHR 0x0D,
       CHR 0x1C, CHR 0x1D, CHR 0x1E, CHR 0x1F, CHR 0x20, CHR 0x85, CHR 0xA0])"

definition strip :: "string \<Rightarrow> string" where
  "strip s = rev (dropWhile is_space (rev (dropWhile is_space s)))"

fun split_on :: "char \<Rightarrow> string \<Rightarrow> string list" where
  \<comment> \<open>\<open>s.split(d)\<close> for a one-character separator: never the empty list\<close>
  "split_on d [] = [[]]"
| "split_on d (c # cs) =
     (if c = d then [] # split_on d cs
      else (case split_on d cs of [] \<Rightarrow> [[c]] | l # ls \<Rightarrow> (c # l) # ls))"

fun join :: "string \<Rightarrow> string list \<Rightarrow> string" where
  \<comment> \<open>\<open>sep.join(xs)\<close>\<close>
  "join sep [] = []"
| "join sep [x] = x"
| "join sep (x # y # ys) = x @ sep @ join sep (y # ys)"

fun str_nat :: "nat \<Rightarrow> string" where
  \<comment> \<open>\<open>str(n)\<close> for a non-negative integer\<close>
  "str_nat n = (if n < 10 then [''0123456789'' ! n]
                else str_nat (n div 10) @ [''0123456789'' ! (n mod 10)])"

declare str_nat.simps [simp del]

definition slice_to :: "int \<Rightarrow> string \<Rightarrow> string" where
  \<comment> \<open>\<open>s[:n]\<close>: a negative bound counts from the end\<close>
  "slice_to n s = (if 0 \<le> n then take (nat n) s else take (length s - nat (- n)) s)"

definition upper_chars :: string where
  "upper_chars = ''ABCDEFGHIJKLMNOPQRSTUVWXYZ'' @
     [CHR 0xC0, CHR 0xC1, CHR 0xC2, CHR 0xC3, CHR 0xC4, CHR 0xC5, CHR 0xC6, CHR 0xC7,
      CHR 0xC8, CHR 0xC9, CHR 0xCA, CHR 0xCB, CHR 0xCC, CHR 0xCD, CHR 0xCE, CHR 0xCF,
      CHR 0xD0, CHR 0xD1, CHR 0xD2, CHR 0xD3, CHR 0xD4, CHR 0xD5, CHR 0xD6,
      CHR 0xD8, CHR 0xD9, CHR 0xDA, CHR 0xDB, CHR 0xDC, CHR 0xDD, CHR 0xDE]"

definition lower_chars :: string where
  "lower_chars = ''abcdefghijklmnopqrstuvwxyz'' @
     [CHR 0xE0, CHR 0xE1, CHR 0xE2, CHR 0xE3, CHR 0xE4, CHR 0xE5, CHR 0xE6, CHR 0xE7,
      CHR 0xE8, CHR 0xE9, CHR 0xEA, CHR 0xEB, CHR 0xEC, CHR 0xED, CHR 0xEE, CHR 0xEF,
      CHR 0xF0, CHR 0xF1, CHR 0xF2, CHR 0xF3, CHR 0xF4, CHR 0xF5, CHR 0xF6,
      CHR 0xF8, CHR 0xF9, CHR 0xFA, CHR 0xFB, CHR 0xFC, CHR 0xFD, CHR 0xFE]"

definition lower_char :: "char \<Rightarrow> char" where
  "lower_char c = (case map_of (zip upper_chars lower_chars) c of None \<Rightarrow> c | Some l \<Rightarrow> l)"

definition lower :: "string \<Rightarrow> string" where
  \<comment> \<open>\<open>s.lower()\<close>\<close>
  "lower s = map lower_char s"

definition replace_char :: "char \<Rightarrow> char \<Rightarrow> string \<Rightarrow> string" where
  \<comment> \<open>\<open>s.replace(a, b)\<close> for one-character \<open>a\<close> and \<open>b\<close>\<close>
  "replace_char a b s = map (\<lambda>c. if c = a then b else c) s"

definition contains :: "string \<Rightarrow> string \<Rightarrow> bool" where
  \<comment> \<open>Python's \<open>sub in s\<close>\<close>
  "contains s sub = (\<exists>i \<in> set [0 ..< Suc (length s)]. take (length sub) (drop i s) = sub)"

definition path_join :: "string \<Rightarrow> string \<Rightarrow> string" where
  \<comment> \<open>\<open>Path(a) / b\<close> as text: an absolute \<open>b\<close> replaces \<open>a\<close>. The removal of
      \<open>.\<close> and doubled separators inside \<open>b\<close> is not modelled.\<close>
  "path_join a b =
     (if b = [] then a
      else if hd b = CHR ''/'' then b
      else if a \<noteq> [] \<and> last a = CHR ''/'' then a @ b
      else a @ ''/'' @ b)"


section \<open>Exceptions, the outside world and the run state\<close>

datatype exn = SystemExit int | EOFError | KeyError string | TypeError | OSError | APIError

definition caught :: "exn \<Rightarrow> bool" where
  \<comment> \<open>\<open>except Exception\<close>: \<open>SystemExit\<close> derives from \<open>BaseException\<close> and passes through\<close>
  "caught e = (case e of SystemExit _ \<Rightarrow> False | _ \<Rightarrow> True)"

datatype 'a outcome = Return 'a | Raise exn

datatype phase = Research | Plan | Implement | Validate | Integrate

text \<open>
  The trace records, in order, what a run does that the properties talk about: the
  commands handed to \<open>subprocess.run\<close>, the calls of the language model, the entry of
  each \<open>_phase_N_\<close> method, the entry of each agent's \<open>execute\<close>, and the value each
  \<open>request_approval\<close> returns together with its checkpoint title.
\<close>

datatype event =
    Command "string list"
  | ClaudeCall
  | Started phase
  | Executed phase
  | Decided string bool

record task =
  name :: string
  type :: string
  hours :: int

text \<open>
  Everything outside the process is a parameter. \<open>'r\<close> is the state of the repository,
  of GitHub and of the clock; \<open>exec\<close> is \<open>subprocess.run\<close> (return code and captured
  standard output, or the exception it raises when the program cannot be started; the
  git commands run in \<open>base_dir\<close>, which the model does not pass along);
  \<open>claude\<close> is \<open>None\<close> when no client was built, and otherwise gives the text of the
  reply to the one request a document builder sends (the prompt text is not modelled);
  \<open>parse_tasks\<close> is the regular-expression search followed by \<open>json.loads\<close>
  (\<open>Inr None\<close>: no array in the reply; \<open>Inl\<close>: \<open>json.loads\<close> raised); \<open>open_error\<close>
  tells whether opening a path for writing raises. \<open>plan_document\<close> and
  \<open>validation_report\<close> stand for \<open>_create_plan_document\<close> and
  \<open>_create_validation_report\<close>, which only build text and use characters above 255.
\<close>

record 'r env =
  exec :: "string list \<Rightarrow> 'r \<Rightarrow> (exn + int \<times> string) \<times> 'r"
  path_exists :: "'r \<Rightarrow> string \<Rightarrow> bool"
  clock :: "'r \<Rightarrow> string"
  open_error :: "string \<Rightarrow> exn option"
  claude :: "('r \<Rightarrow> (exn + string) \<times> 'r) option"
  parse_tasks :: "string \<Rightarrow> exn + task list option"
  plan_document :: "string \<Rightarrow> task list \<Rightarrow> string"
  validation_report :: "string \<Rightarrow> string"

record 'r world =
  ext :: 'r
  files :: "string \<rightharpoonup> string"
  stdin :: "string list"
  trace :: "event list"

type_synonym ('a, 'r) py = "'r world \<Rightarrow> 'a outcome \<times> 'r world"

definition ret :: "'a \<Rightarrow> ('a, 'r) py" where
  "ret x w = (Return x, w)"

definition raise :: "exn \<Rightarrow> ('a, 'r) py" where
  "raise e w = (Raise e, w)"

definition bind :: "('a, 'r) py \<Rightarrow> ('a \<Rightarrow> ('b, 'r) py) \<Rightarrow> ('b, 'r) py" where
  \<comment> \<open>statement sequencing: an exception skips the rest\<close>
  "bind m f w = (case m w of (Return x, w') \<Rightarrow> f x w' | (Raise e, w') \<Rightarrow> (Raise e, w'))"

definition log :: "event \<Rightarrow> (unit, 'r) py" where
  "log ev w = (Return (), w\<lparr>trace := trace w @ [ev]\<rparr>)"

definition run_cmd :: "'r env \<Rightarrow> string list \<Rightarrow> (int \<times> string, 'r) py" where
  \<comment> \<open>\<open>subprocess.run(cmd, ...)\<close>: the pair is \<open>(returncode, stdout)\<close>\<close>
  "run_cmd E argv w =
     (case exec E argv (ext w) of
        (Inl e, r) \<Rightarrow> (Raise e, w\<lparr>ext := r, trace := trace w @ [Command argv]\<rparr>)
      | (Inr res, r) \<Rightarrow> (Return res, w\<lparr>ext := r, trace := trace w @ [Command argv]\<rparr>))"


section \<open>GitHubIssues\<close>

definition create_issue :: "'r env \<Rightarrow> string \<Rightarrow> string \<Rightarrow> string list \<Rightarrow> (string option, 'r) py" where
  "create_issue E title body labels =
     bind (run_cmd E [''gh'', ''issue'', ''create'', ''--title'', title, ''--body'', body,
                      ''--label'', join '','' labels])
       (\<lambda>(returncode, out).
          if returncode = 0 then ret (Some (last (split_on CHR ''/'' (strip out))))
          else ret None)"

definition comment_issue :: "'r env \<Rightarrow> string option \<Rightarrow> string \<Rightarrow> (unit, 'r) py" where
  \<comment> \<open>\<open>issue_number\<close> is \<open>None\<close> when \<open>create_issue\<close> failed: \<open>subprocess.run\<close> then
      raises \<open>TypeError\<close> on the argument list before anything is started\<close>
  "comment_issue E issue_number comment =
     (case issue_number of
        None \<Rightarrow> raise TypeError
      | Some n \<Rightarrow> bind (run_cmd E [''gh'', ''issue'', ''comment'', n, ''--body'', comment])
                    (\<lambda>_. ret ()))"

definition close_issue :: "'r env \<Rightarrow> string option \<Rightarrow> (unit, 'r) py" where
  "close_issue E issue_number =
     (case issue_number of
        None \<Rightarrow> raise TypeError
      | Some n \<Rightarrow> bind (run_cmd E [''gh'', ''issue'', ''close'', n]) (\<lambda>_. ret ()))"


section \<open>ContextFirewall\<close>

definition save_full_output :: "'r env \<Rightarrow> string \<Rightarrow> string \<Rightarrow> string \<Rightarrow> string \<Rightarrow> (string, 'r) py" where
  "save_full_output E firewall_dir agent_name phase content w =
     (let filename = agent_name @ ''-'' @ phase @ ''-'' @ clock E (ext w) @ ''.md'';
          filepath = path_join firewall_dir filename
      in case open_error E filepath of
           Some e \<Rightarrow> (Raise e, w)
         | None \<Rightarrow> (Return filepath, w\<lparr>files := (files w)(filepath \<mapsto> content)\<rparr>))"

definition is_key_point :: "string \<Rightarrow> bool" where
  \<comment> \<open>\<open>l.strip().startswith(('-', '*', '1', '2', '3'))\<close>\<close>
  "is_key_point l = (case strip l of [] \<Rightarrow> False | c # _ \<Rightarrow> c \<in> set ''-*123'')"

definition key_points_of :: "string \<Rightarrow> string list" where
  "key_points_of full_output = filter is_key_point (split_on CHR ''\<newline>'' full_output)"

definition summary_header :: "nat \<Rightarrow> string" where
  "summary_header n = ''SUMMARY ('' @ str_nat n @ '' key points):\<newline>\<newline>''"

definition truncate_summary :: "int \<Rightarrow> string \<Rightarrow> string" where
  \<comment> \<open>lines 131-132: the cut at \<open>max_tokens * 4\<close> characters and the marker\<close>
  "truncate_summary max_tokens summary =
     (if int (length summary) > max_tokens * 4
      then slice_to (max_tokens * 4) summary @ ''\<newline>\<newline>[Truncated...]''
      else summary)"

definition create_summary :: "string \<Rightarrow> int \<Rightarrow> string" where
  "create_summary full_output max_tokens =
     (let key_points = key_points_of full_output;
          summary = summary_header (length key_points) @ join ''\<newline>'' (take 20 key_points)
      in truncate_summary max_tokens summary)"


section \<open>WorktreeManager\<close>

definition worktree_path :: "string \<Rightarrow> string \<Rightarrow> string" where
  \<comment> \<open>\<open>self.worktrees_dir / branch_name\<close> with \<open>worktrees_dir = base_dir / "worktrees"\<close>\<close>
  "worktree_path base_dir branch_name = path_join (path_join base_dir ''worktrees'') branch_name"

definition create_worktree :: "'r env \<Rightarrow> string \<Rightarrow> string \<Rightarrow> string option \<Rightarrow> (string option, 'r) py" where
  "create_worktree E base_dir branch_name issue_number w =
     (let p = worktree_path base_dir branch_name
      in if path_exists E (ext w) p then (Return None, w)
         else bind (run_cmd E [''git'', ''worktree'', ''add'', p, ''-b'', branch_name])
                (\<lambda>(returncode, out). if returncode = 0 then ret (Some p) else ret None) w)"

definition merge_worktree :: "'r env \<Rightarrow> string \<Rightarrow> string \<Rightarrow> (bool, 'r) py" where
  "merge_worktree E base_dir branch_name w =
     (let p = worktree_path base_dir branch_name
      in if \<not> path_exists E (ext w) p then (Return False, w)
         else bind (run_cmd E [''git'', ''checkout'', ''main'']) (\<lambda>_.
              bind (run_cmd E [''git'', ''merge'', ''--no-ff'', branch_name]) (\<lambda>_.
              bind (run_cmd E [''git'', ''worktree'', ''remove'', p]) (\<lambda>_.
              bind (run_cmd E [''git'', ''branch'', ''-d'', branch_name]) (\<lambda>_.
              ret True)))) w)"


section \<open>HumanCheckpoint\<close>

definition handle_modify :: "(string \<times> string) list \<Rightarrow> bool" where
  "handle_modify data = False"

fun approval_loop :: "(string \<times> string) list \<Rightarrow> string list \<Rightarrow> bool outcome \<times> string list" where
  \<comment> \<open>the \<open>while True\<close> loop over the lines typed by the human; \<open>input()\<close> at the end of
      the input raises \<open>EOFError\<close>\<close>
  "approval_loop data [] = (Raise EOFError, [])"
| "approval_loop data (line # rest) =
     (let response = lower line
      in if response \<in> set [''yes'', ''y''] then (Return True, rest)
         else if response \<in> set [''no'', ''n''] then (Return False, rest)
         else if response \<in> set [''modify'', ''m''] then (Return (handle_modify data), rest)
         else approval_loop data rest)"

text \<open>
  The same loop reading an input that never ends, line \<open>inp i\<close> being the next line
  to read: the result is the decision and the index of the next unread line, and
  \<open>None\<close> stands for a call that never returns.
\<close>

partial_function (option) approval_stream ::
  "(string \<times> string) list \<Rightarrow> (nat \<Rightarrow> string) \<Rightarrow> nat \<Rightarrow> (bool \<times> nat) option" where
  "approval_stream data inp i =
     (let response = lower (inp i)
      in if response \<in> set [''yes'', ''y''] then Some (True, Suc i)
         else if response \<in> set [''no'', ''n''] then Some (False, Suc i)
         else if response \<in> set [''modify'', ''m''] then Some (handle_modify data, Suc i)
         else approval_stream data inp (Suc i))"

definition request_approval :: "string \<Rightarrow> (string \<times> string) list \<Rightarrow> (bool, 'r) py" where
  "request_approval checkpoint_type data w =
     (case approval_loop data (stdin w) of
        (Return b, rest) \<Rightarrow>
          (Return b, w\<lparr>stdin := rest, trace := trace w @ [Decided checkpoint_type b]\<rparr>)
      | (Raise e, rest) \<Rightarrow> (Raise e, w\<lparr>stdin := rest\<rparr>))"


section \<open>The agents\<close>

text \<open>
  Every agent returns a dictionary holding at least \<open>summary\<close> and \<open>full_document\<close>;
  the records below keep the entries that the orchestrator reads.
\<close>

record agent_result =
  summary :: string
  full_document :: string

record research_result = agent_result +
  findings_count :: nat
  recommendation :: string

record plan_result = agent_result +
  task_count :: nat
  estimated_hours :: int
  plan_approved :: bool

record implementation = agent_result +
  files_created :: nat
  commits :: nat
  implementation_worktree :: string

record validation = agent_result +
  all_passed :: bool
  unit_total :: nat
  unit_coverage :: string
  integration_total :: nat
  security_vulnerabilities :: nat

definition firewall_dir :: "string \<Rightarrow> string" where
  \<comment> \<open>\<open>self.autoflow_dir / "context-firewalls"\<close> with \<open>autoflow_dir = base_dir / ".autoflow"\<close>\<close>
  "firewall_dir base_dir = path_join (path_join base_dir ''.autoflow'') ''context-firewalls''"

subsection \<open>ResearchAgent\<close>

record finding =
  title :: string
  relevance :: "string option"
  language :: "string option"

definition search_knowledge_base :: "string \<Rightarrow> finding list" where
  \<comment> \<open>the relevance numbers are kept as the text Python prints for them\<close>
  "search_knowledge_base topic =
     [\<lparr>title = ''Pattern 1 for '' @ topic, relevance = Some ''0.95'', language = None\<rparr>,
      \<lparr>title = ''Pattern 2 for '' @ topic, relevance = Some ''0.89'', language = None\<rparr>,
      \<lparr>title = ''Pattern 3 for '' @ topic, relevance = Some ''0.82'', language = None\<rparr>]"

definition search_code_examples :: "string \<Rightarrow> finding list" where
  "search_code_examples topic =
     [\<lparr>title = ''Example 1 for '' @ topic, relevance = None, language = Some ''python''\<rparr>,
      \<lparr>title = ''Example 2 for '' @ topic, relevance = None, language = Some ''typescript''\<rparr>]"

definition review_docs :: "string \<Rightarrow> string list" where
  "review_docs topic = [''Documentation for '' @ topic]"

definition get_or :: "string option \<Rightarrow> string \<Rightarrow> string" where
  \<comment> \<open>\<open>d.get(key, default)\<close>\<close>
  "get_or v d = (case v of None \<Rightarrow> d | Some x \<Rightarrow> x)"

definition basic_document :: "string \<Rightarrow> finding list \<Rightarrow> finding list \<Rightarrow> string list \<Rightarrow> string" where
  \<comment> \<open>lines 338-352: the fallback document\<close>
  "basic_document topic kb_results code_examples docs =
     ''# Research: '' @ topic @ ''\<newline>\<newline>'' @
     ''## Knowledge Base Results ('' @ str_nat (length kb_results) @ '' found)\<newline>\<newline>'' @
     concat (map (\<lambda>r. ''- '' @ title r @ '' (relevance: '' @ get_or (relevance r) ''N/A'' @ '')\<newline>'')
                 kb_results) @
     ''\<newline>## Code Examples ('' @ str_nat (length code_examples) @ '' found)\<newline>\<newline>'' @
     concat (map (\<lambda>e. ''- '' @ title e @ '' ('' @ get_or (language e) ''N/A'' @ '')\<newline>'')
                 code_examples) @
     ''\<newline>## Documentation Review\<newline>\<newline>'' @
     concat (map (\<lambda>d. ''- '' @ d @ ''\<newline>'') docs)"

definition create_research_document ::
  "'r env \<Rightarrow> string \<Rightarrow> finding list \<Rightarrow> finding list \<Rightarrow> string list \<Rightarrow> (string, 'r) py" where
  "create_research_document E topic kb_results code_examples docs w =
     (case claude E of
        None \<Rightarrow> (Return (basic_document topic kb_results code_examples docs), w)
      | Some call \<Rightarrow>
          (case call (ext w) of
             (Inr text, r) \<Rightarrow> (Return text, w\<lparr>ext := r, trace := trace w @ [ClaudeCall]\<rparr>)
           | (Inl e, r) \<Rightarrow>
               (if caught e
                then (Return (basic_document topic kb_results code_examples docs),
                      w\<lparr>ext := r, trace := trace w @ [ClaudeCall]\<rparr>)
                else (Raise e, w\<lparr>ext := r, trace := trace w @ [ClaudeCall]\<rparr>))))"

definition generate_recommendation :: "finding list \<Rightarrow> finding list \<Rightarrow> string" where
  "generate_recommendation kb_results code_examples =
     ''Based on '' @ str_nat (length kb_results) @ '' patterns and '' @
     str_nat (length code_examples) @ '' examples, recommend proceeding with implementation.''"

definition research_execute :: "'r env \<Rightarrow> string \<Rightarrow> string \<Rightarrow> string list \<Rightarrow> (research_result, 'r) py" where
  "research_execute E base_dir topic sources =
     bind (log (Executed Research)) (\<lambda>_.
     let kb_results = search_knowledge_base topic;
         code_examples = search_code_examples topic;
         docs = review_docs topic
     in bind (create_research_document E topic kb_results code_examples docs) (\<lambda>full_output.
        bind (save_full_output E (firewall_dir base_dir) ''research'' topic full_output) (\<lambda>filepath.
        ret \<lparr>summary = create_summary full_output 2000,
             full_document = filepath,
             findings_count = length kb_results + length code_examples,
             recommendation = generate_recommendation kb_results code_examples\<rparr>)))"

subsection \<open>PlanAgent\<close>

definition default_tasks :: "task list" where
  "default_tasks =
     [\<lparr>name = ''Set up project structure'', type = ''setup'', hours = 1\<rparr>,
      \<lparr>name = ''Implement core functionality'', type = ''implementation'', hours = 4\<rparr>,
      \<lparr>name = ''Add error handling'', type = ''implementation'', hours = 2\<rparr>,
      \<lparr>name = ''Write unit tests'', type = ''testing'', hours = 3\<rparr>,
      \<lparr>name = ''Write integration tests'', type = ''testing'', hours = 2\<rparr>,
      \<lparr>name = ''Update documentation'', type = ''documentation'', hours = 1\<rparr>]"

definition break_into_tasks :: "'r env \<Rightarrow> string \<Rightarrow> string \<Rightarrow> (task list, 'r) py" where
  \<comment> \<open>a reply whose array holds anything but task objects is outside the model\<close>
  "break_into_tasks E task_description research_summary w =
     (case claude E of
        None \<Rightarrow> (Return default_tasks, w)
      | Some call \<Rightarrow>
          (case call (ext w) of
             (Inr content, r) \<Rightarrow>
               (case parse_tasks E content of
                  Inr (Some tasks) \<Rightarrow> (Return tasks, w\<lparr>ext := r, trace := trace w @ [ClaudeCall]\<rparr>)
                | Inr None \<Rightarrow> (Return default_tasks, w\<lparr>ext := r, trace := trace w @ [ClaudeCall]\<rparr>)
                | Inl e \<Rightarrow>
                    (if caught e
                     then (Return default_tasks, w\<lparr>ext := r, trace := trace w @ [ClaudeCall]\<rparr>)
                     else (Raise e, w\<lparr>ext := r, trace := trace w @ [ClaudeCall]\<rparr>)))
           | (Inl e, r) \<Rightarrow>
               (if caught e
                then (Return default_tasks, w\<lparr>ext := r, trace := trace w @ [ClaudeCall]\<rparr>)
                else (Raise e, w\<lparr>ext := r, trace := trace w @ [ClaudeCall]\<rparr>))))"

definition total_hours :: "task list \<Rightarrow> int" where
  \<comment> \<open>\<open>_estimate_complexity(tasks)["total_hours"]\<close>\<close>
  "total_hours tasks = sum_list (map hours tasks)"

definition plan_execute :: "'r env \<Rightarrow> string \<Rightarrow> string \<Rightarrow> string \<Rightarrow> (plan_result, 'r) py" where
  "plan_execute E base_dir task_description research_summary =
     bind (log (Executed Plan)) (\<lambda>_.
     bind (break_into_tasks E task_description research_summary) (\<lambda>tasks.
     let full_plan = plan_document E task_description tasks
     in bind (save_full_output E (firewall_dir base_dir) ''plan'' task_description full_plan) (\<lambda>filepath.
        ret \<lparr>summary = create_summary full_plan 2000,
             full_document = filepath,
             task_count = length tasks,
             estimated_hours = total_hours tasks,
             plan_approved = False\<rparr>)))"

subsection \<open>ImplementAgent\<close>

definition implement_features :: "string \<Rightarrow> string \<Rightarrow> string list" where
  "implement_features worktree plan_summary = [''src/main.py'', ''src/utils.py'', ''tests/test_main.py'']"

definition commit_changes :: "string \<Rightarrow> string list \<Rightarrow> string list" where
  "commit_changes worktree fs = map (\<lambda>file. ''Add '' @ file) fs"

definition create_implementation_report :: "string \<Rightarrow> string list \<Rightarrow> string list \<Rightarrow> string" where
  "create_implementation_report task_description fs cs =
     ''# Implementation Report: '' @ task_description @ ''\<newline>\<newline>'' @
     ''## Files Created ('' @ str_nat (length fs) @ '')\<newline>\<newline>'' @
     concat (map (\<lambda>file. ''- '' @ file @ ''\<newline>'') fs) @
     ''\<newline>## Commits ('' @ str_nat (length cs) @ '')\<newline>\<newline>'' @
     concat (map (\<lambda>(i, commit). str_nat i @ ''. '' @ commit @ ''\<newline>'')
                 (zip [1 ..< Suc (length cs)] cs)) @
     ''\<newline>## Next Steps\<newline>\<newline>'' @
     ''- Run validation tests\<newline>'' @
     ''- Review code quality\<newline>'' @
     ''- Check for security issues\<newline>''"

definition implement_execute :: "'r env \<Rightarrow> string \<Rightarrow> string \<Rightarrow> string \<Rightarrow> string \<Rightarrow> (implementation, 'r) py" where
  "implement_execute E base_dir worktree plan_summary task_description =
     bind (log (Executed Implement)) (\<lambda>_.
     let fs = implement_features worktree plan_summary;
         cs = commit_changes worktree fs;
         full_report = create_implementation_report task_description fs cs
     in bind (save_full_output E (firewall_dir base_dir) ''implement'' task_description full_report) (\<lambda>filepath.
        ret \<lparr>summary = create_summary full_report 2000,
             full_document = filepath,
             files_created = length fs,
             commits = length cs,
             implementation_worktree = worktree\<rparr>))"

subsection \<open>ValidateAgent\<close>

definition validate_execute :: "'r env \<Rightarrow> string \<Rightarrow> string \<Rightarrow> string \<Rightarrow> (validation, 'r) py" where
  \<comment> \<open>the four checks are the constant dictionaries of lines 654-686\<close>
  "validate_execute E base_dir worktree task_description =
     bind (log (Executed Validate)) (\<lambda>_.
     let full_report = validation_report E task_description
     in bind (save_full_output E (firewall_dir base_dir) ''validate'' task_description full_report) (\<lambda>filepath.
        ret \<lparr>summary = create_summary full_report 2000,
             full_document = filepath,
             all_passed = (True \<and> True \<and> True \<and> True),
             unit_total = 15,
             unit_coverage = ''85%'',
             integration_total = 8,
             security_vulnerabilities = 0\<rparr>))"


section \<open>AutoFlowOrchestrator\<close>

definition checkpoint_of :: "phase \<Rightarrow> string" where
  \<comment> \<open>the title each phase passes to \<open>request_approval\<close>; phase 5 has no checkpoint\<close>
  "checkpoint_of p = (case p of
       Research \<Rightarrow> ''Research Complete''
     | Plan \<Rightarrow> ''Plan Review''
     | Implement \<Rightarrow> ''Code Review''
     | Validate \<Rightarrow> ''Validation Review''
     | Integrate \<Rightarrow> [])"

definition phase_1_research :: "'r env \<Rightarrow> string \<Rightarrow> string \<Rightarrow> (string option, 'r) py" where
  "phase_1_research E base_dir task_description =
     bind (log (Started Research)) (\<lambda>_.
     bind (create_issue E (''[RESEARCH] '' @ task_description)
             (''Research patterns and examples for: '' @ task_description)
             [''phase:research'', ''status:in-progress'']) (\<lambda>issue_number.
     bind (research_execute E base_dir task_description [''kb'', ''code'', ''docs'']) (\<lambda>result.
     bind (request_approval (checkpoint_of Research)
             [(''Summary'', summary result),
              (''Findings'', str_nat (findings_count result) @ '' patterns/examples found''),
              (''Recommendation'', recommendation result),
              (''Full Document'', full_document result)]) (\<lambda>approved.
     if \<not> approved then raise (SystemExit 1)
     else bind (comment_issue E issue_number
                  (''**Research Complete**\<newline>\<newline>'' @ summary result)) (\<lambda>_.
          bind (close_issue E issue_number) (\<lambda>_.
          ret issue_number))))))"

definition str_int :: "int \<Rightarrow> string" where
  "str_int i = (if i < 0 then ''-'' @ str_nat (nat (- i)) else str_nat (nat i))"

definition phase_2_plan :: "'r env \<Rightarrow> string \<Rightarrow> string \<Rightarrow> string option \<Rightarrow> (string option, 'r) py" where
  "phase_2_plan E base_dir task_description research_issue =
     bind (log (Started Plan)) (\<lambda>_.
     bind (create_issue E (''[PLAN] '' @ task_description)
             (''Create implementation plan for: '' @ task_description)
             [''phase:plan'', ''status:in-progress'']) (\<lambda>issue_number.
     bind (plan_execute E base_dir task_description ''Research completed successfully'') (\<lambda>result.
     bind (request_approval (checkpoint_of Plan)
             [(''Summary'', summary result),
              (''Tasks'', str_nat (task_count result) @ '' tasks identified''),
              (''Estimated Time'', str_int (estimated_hours result) @ '' hours''),
              (''Full Document'', full_document result)]) (\<lambda>approved.
     if \<not> approved then raise (SystemExit 1)
     else bind (comment_issue E issue_number
                  (''**Plan Complete**\<newline>\<newline>'' @ summary result)) (\<lambda>_.
          bind (close_issue E issue_number) (\<lambda>_.
          ret issue_number))))))"

record implement_info =
  branch :: string
  worktree :: string
  commit_count :: nat

definition phase_3_implement :: "'r env \<Rightarrow> string \<Rightarrow> string \<Rightarrow> string option \<Rightarrow> (implement_info option, 'r) py" where
  \<comment> \<open>the empty dictionary of line 863 is \<open>None\<close>\<close>
  "phase_3_implement E base_dir task_description plan_issue =
     bind (log (Started Implement)) (\<lambda>_.
     let branch_name = ''implement-'' @ replace_char CHR '' '' CHR ''-'' (lower task_description)
     in bind (create_worktree E base_dir branch_name plan_issue) (\<lambda>created.
        case created of
          None \<Rightarrow> ret None
        | Some wt \<Rightarrow>
            bind (implement_execute E base_dir wt ''Plan created successfully'' task_description) (\<lambda>result.
            bind (request_approval (checkpoint_of Implement)
                    [(''Summary'', summary result),
                     (''Files Created'', str_nat (files_created result)),
                     (''Commits'', str_nat (commits result)),
                     (''Full Document'', full_document result)]) (\<lambda>approved.
            if \<not> approved then raise (SystemExit 1)
            else ret (Some \<lparr>branch = branch_name, worktree = wt,
                            commit_count = commits result\<rparr>)))))"

definition phase_4_validate :: "'r env \<Rightarrow> string \<Rightarrow> implement_info option \<Rightarrow> (validation, 'r) py" where
  \<comment> \<open>\<open>implement_result["worktree"]\<close> on the empty dictionary raises \<open>KeyError\<close>; the
      marks in front of Yes and No are left out of the text shown\<close>
  "phase_4_validate E base_dir implement_result =
     bind (log (Started Validate)) (\<lambda>_.
     case implement_result of
       None \<Rightarrow> raise (KeyError ''worktree'')
     | Some info \<Rightarrow>
         bind (validate_execute E base_dir (worktree info) ''validation'') (\<lambda>result.
         bind (request_approval (checkpoint_of Validate)
                 [(''Summary'', summary result),
                  (''All Tests Passed'', if all_passed result then ''Yes'' else ''No''),
                  (''Unit Tests'', str_nat (unit_total result) @ '' tests, '' @
                                   unit_coverage result @ '' coverage''),
                  (''Integration Tests'', str_nat (integration_total result) @ '' tests''),
                  (''Security'', str_nat (security_vulnerabilities result) @ '' vulnerabilities''),
                  (''Full Document'', full_document result)]) (\<lambda>approved.
         if \<not> approved then raise (SystemExit 1)
         else ret result)))"

definition phase_5_integrate :: "'r env \<Rightarrow> string \<Rightarrow> implement_info option \<Rightarrow> validation \<Rightarrow> (unit, 'r) py" where
  "phase_5_integrate E base_dir implement_result validate_result =
     bind (log (Started Integrate)) (\<lambda>_.
     case implement_result of
       None \<Rightarrow> ret ()
     | Some info \<Rightarrow>
         if branch info \<noteq> [] then bind (merge_worktree E base_dir (branch info)) (\<lambda>_. ret ())
         else ret ())"

definition run_workflow :: "'r env \<Rightarrow> string \<Rightarrow> string \<Rightarrow> (unit, 'r) py" where
  "run_workflow E base_dir task_description =
     bind (phase_1_research E base_dir task_description) (\<lambda>research_issue.
     bind (phase_2_plan E base_dir task_description research_issue) (\<lambda>plan_issue.
     bind (phase_3_implement E base_dir task_description plan_issue) (\<lambda>implement_result.
     bind (phase_4_validate E base_dir implement_result) (\<lambda>validate_result.
     phase_5_integrate E base_dir implement_result validate_result))))"


section \<open>A reference environment\<close>

text \<open>
  A small stand-in for git and the GitHub client, used to run the model on concrete
  inputs. A worktree is added when neither its directory nor its branch exists; a merge
  fails with return code 1 on a branch listed in \<open>sim_conflicts\<close>; \<open>git branch -d\<close>
  refuses a branch that was not merged.
\<close>

record sim =
  sim_dirs :: "string list"
  sim_branches :: "string list"
  sim_conflicts :: "string list"
  sim_merged :: "string list"

definition sim_exec :: "string list \<Rightarrow> sim \<Rightarrow> (exn + int \<times> string) \<times> sim" where
  "sim_exec argv s =
     (if take 3 argv = [''git'', ''worktree'', ''add''] \<and> length argv = 6 then
        (if argv ! 3 \<in> set (sim_dirs s) \<or> argv ! 5 \<in> set (sim_branches s)
         then (Inr (128, []), s)
         else (Inr (0, []), s\<lparr>sim_dirs := argv ! 3 # sim_dirs s,
                                sim_branches := argv ! 5 # sim_branches s\<rparr>))
      else if take 3 argv = [''git'', ''merge'', ''--no-ff''] \<and> length argv = 4 then
        (if argv ! 3 \<in> set (sim_conflicts s) \<or> argv ! 3 \<notin> set (sim_branches s)
         then (Inr (1, []), s)
         else (Inr (0, []), s\<lparr>sim_merged := argv ! 3 # sim_merged s\<rparr>))
      else if take 3 argv = [''git'', ''worktree'', ''remove''] \<and> length argv = 4 then
        (if argv ! 3 \<in> set (sim_dirs s)
         then (Inr (0, []), s\<lparr>sim_dirs := removeAll (argv ! 3) (sim_dirs s)\<rparr>)
         else (Inr (128, []), s))
      else if take 3 argv = [''git'', ''branch'', ''-d''] \<and> length argv = 4 then
        (if argv ! 3 \<in> set (sim_branches s) \<and> argv ! 3 \<in> set (sim_merged s)
         then (Inr (0, []), s\<lparr>sim_branches := removeAll (argv ! 3) (sim_branches s)\<rparr>)
         else (Inr (1, []), s))
      else if take 3 argv = [''gh'', ''issue'', ''create'']
        then (Inr (0, ''https://github.com/acme/app/issues/7\<newline>''), s)
      else (Inr (0, []), s))"

definition sim_env :: "sim env" where
  "sim_env = \<lparr>exec = sim_exec,
              path_exists = (\<lambda>s p. p \<in> set (sim_dirs s)),
              clock = (\<lambda>s. ''20250101-120000''),
              open_error = (\<lambda>p. None),
              claude = None,
              parse_tasks = (\<lambda>t. Inr None),
              plan_document = (\<lambda>d ts. ''# Implementation Plan: '' @ d @ ''\<newline>1. Setup phase\<newline>''),
              validation_report = (\<lambda>d. ''# Validation Report: '' @ d @ ''\<newline>- Status: PASSED\<newline>'')\<rparr>"


definition replying_env :: "sim env" where
  \<comment> \<open>the reference environment with a client that answers every request\<close>
  "replying_env = sim_env\<lparr>claude := Some (\<lambda>s. (Inr ''- use sessions'', s))\<rparr>"

definition sim_repo :: "string list \<Rightarrow> string list \<Rightarrow> string list \<Rightarrow> sim" where
  "sim_repo ds bs cs = \<lparr>sim_dirs = ds, sim_branches = bs, sim_conflicts = cs, sim_merged = []\<rparr>"

definition sim_world :: "sim \<Rightarrow> string list \<Rightarrow> sim world" where
  "sim_world s inputs = \<lparr>ext = s, files = Map.empty, stdin = inputs, trace = []\<rparr>"


section \<open>Vocabulary of the properties\<close>

definition structured_point :: "string \<Rightarrow> bool" where
  \<comment> \<open>the spec's words: a line that starts, after blanks, with a bullet marker or with
      the digit of a numbered list marker\<close>
  "structured_point l =
     (case strip l of [] \<Rightarrow> False | c # _ \<Rightarrow> c \<in> set ''-*'' \<or> c \<in> set ''0123456789'')"

definition structured_points :: "string \<Rightarrow> string list" where
  "structured_points content = filter structured_point (split_on CHR ''\<newline>'' content)"

definition other_digit_line :: "string \<Rightarrow> bool" where
  \<comment> \<open>a line that starts, after blanks, with a digit that line 126 does not list\<close>
  "other_digit_line l = (case strip l of [] \<Rightarrow> False | c # _ \<Rightarrow> c \<in> set ''0456789'')"

definition recognized :: "string \<Rightarrow> bool" where
  \<comment> \<open>the responses that end the loop of \<open>request_approval\<close>\<close>
  "recognized line = (lower line \<in> set [''yes'', ''y'', ''no'', ''n'', ''modify'', ''m''])"

definition says_yes :: "string \<Rightarrow> bool" where
  "says_yes line = (lower line \<in> set [''yes'', ''y''])"

definition says_no :: "string \<Rightarrow> bool" where
  \<comment> \<open>the responses on which \<open>request_approval\<close> returns \<open>False\<close>\<close>
  "says_no line = (lower line \<in> set [''no'', ''n'', ''modify'', ''m''])"


text \<open>
  The order of the phases as a property of traces, and the assertions used to prove it:
  \<open>triple P m Q\<close> says that from a trace satisfying \<open>P\<close> the computation \<open>m\<close>
  either returns in a trace satisfying \<open>Q\<close> or raises in a trace that is still in order,
  and that ends in \<open>SystemExit 1\<close> if a checkpoint was rejected.
\<close>

fun needs :: "event \<Rightarrow> string option" where
  \<comment> \<open>the approval that must precede an event: each agent after the first needs the
      checkpoint of the phase before it, and so does the start of phase 5\<close>
  "needs (Executed Plan) = Some (checkpoint_of Research)"
| "needs (Executed Implement) = Some (checkpoint_of Plan)"
| "needs (Executed Validate) = Some (checkpoint_of Implement)"
| "needs (Started Integrate) = Some (checkpoint_of Validate)"
| "needs ev = None"

definition in_order :: "event list \<Rightarrow> bool" where
  "in_order t = (\<forall>pre ev post. t = pre @ ev # post \<longrightarrow>
      (\<forall>c. needs ev = Some c \<longrightarrow> Decided c True \<in> set pre) \<and>
      ((\<exists>c. ev = Decided c False) \<longrightarrow> post = []))"

definition rejected :: "event list \<Rightarrow> bool" where
  "rejected t = (\<exists>c. Decided c False \<in> set t)"

definition cleared :: "string set \<Rightarrow> event list \<Rightarrow> bool" where
  \<comment> \<open>a trace without rejection in which the checkpoints of \<open>A\<close> were approved\<close>
  "cleared A t = (in_order t \<and> \<not> rejected t \<and> (\<forall>c \<in> A. Decided c True \<in> set t))"

definition finished :: "exn \<Rightarrow> event list \<Rightarrow> bool" where
  "finished e t = (in_order t \<and> (rejected t \<longrightarrow> e = SystemExit 1))"

definition triple :: "(event list \<Rightarrow> bool) \<Rightarrow> ('a, 'r) py \<Rightarrow> ('a \<Rightarrow> event list \<Rightarrow> bool) \<Rightarrow> bool" where
  "triple P m Q = (\<forall>w r w'. P (trace w) \<longrightarrow> m w = (r, w') \<longrightarrow>
      (case r of Return x \<Rightarrow> Q x (trace w') | Raise e \<Rightarrow> finished e (trace w')))"

definition approved_by :: "implement_info option \<Rightarrow> string set" where
  "approved_by r = (case r of None \<Rightarrow> {} | Some _ \<Rightarrow> {checkpoint_of Implement})"


section \<open>The summary of the context firewall\<close>


lemma truncate_summary_length:
  "0 \<le> B \<Longrightarrow> length (truncate_summary B s) \<le> nat (4 * B) + 16"
  by (auto simp: truncate_summary_def slice_to_def)

text \<open>
  C3 (amended): for every content and every budget \<open>max_tokens \<ge> 0\<close>, the summary has
  at most \<open>4 * max_tokens + 16\<close> characters: the cut is made at four characters per
  token of the budget, and 16 is the length of the truncation marker.
\<close>

theorem create_summary_length:
  "0 \<le> B \<Longrightarrow> length (create_summary C B) \<le> nat (4 * B) + 16"
  by (simp add: create_summary_def Let_def truncate_summary_length)

text \<open>
  The bound at a bullet line of 200 characters and a budget of 25.
\<close>

theorem create_summary_length_witness:
  "(0::int) \<le> 25 \<and> length (create_summary (replicate 200 CHR ''-'') 25) \<le> nat (4 * 25) + 16"
  using create_summary_length [of 25 "replicate 200 CHR ''-''"] by simp

text \<open>
  C3 as stated fails: with a budget of 25 the summary of one bullet line of 200
  characters has 116 characters, more than the budget plus the header and the marker
  together; with a negative budget the cut removes characters from the end only.
\<close>

theorem create_summary_length_counterexample:
  "\<not> length (create_summary (replicate 200 CHR ''-'') 25)
       \<le> 25 + (length (summary_header 1) + length ''\<newline>\<newline>[Truncated...]'')
   \<and> \<not> int (length (create_summary (replicate 200 CHR ''-'') (- 1)))
       \<le> - 1 + int (length (summary_header 1) + length ''\<newline>\<newline>[Truncated...]'')"
  by code_simp

lemma split_on_replicate: "c \<noteq> d \<Longrightarrow> split_on d (replicate n c) = [replicate n c]"
  by (induction n) auto

lemma strip_dashes: "strip (replicate (Suc n) CHR ''-'') = replicate (Suc n) CHR ''-''"
proof -
  have a: "\<not> is_space CHR ''-''" by (simp add: is_space_def)
  have "rev (replicate (Suc n) CHR ''-'') = CHR ''-'' # replicate n CHR ''-''"
    by (simp add: replicate_append_same)
  then show ?thesis using a unfolding strip_def
    by (metis dropWhile.simps(2) replicate_Suc rev_replicate)
qed

text \<open>
  No constant works as overhead over the budget itself: for every \<open>k\<close> some content
  and some non-negative budget give a summary longer than the budget plus \<open>k\<close>.
\<close>

lemma no_fixed_overhead:
  "\<exists>C B. 0 \<le> B \<and> length (create_summary C B) > nat B + k"
proof -
  let ?C = "replicate (Suc (4 * k)) CHR ''-''"
  have "is_key_point ?C"
    unfolding is_key_point_def strip_dashes by simp
  then have kp: "key_points_of ?C = [?C]"
    unfolding key_points_of_def by (simp add: split_on_replicate del: replicate_Suc replicate.simps)
  have "length (create_summary ?C (int k)) = 4 * k + 16"
    unfolding create_summary_def Let_def kp
    by (simp add: truncate_summary_def slice_to_def summary_header_def del: replicate_Suc replicate.simps)
  then show ?thesis
    by (intro exI [of _ ?C] exI [of _ "int k"]) simp
qed







lemma key_point_structured:
  "\<not> other_digit_line l \<Longrightarrow> is_key_point l = structured_point l"
  by (auto simp: other_digit_line_def is_key_point_def structured_point_def split: list.splits)

lemma key_points_structured:
  "\<forall>l \<in> set (split_on CHR ''\<newline>'' C). \<not> other_digit_line l \<Longrightarrow> key_points_of C = structured_points C"
  unfolding key_points_of_def structured_points_def
  by (rule filter_cong) (auto simp: key_point_structured)

text \<open>
  C8 (amended): when no line of the content starts with one of the digits 0, 4, ..., 9,
  the summary is the truncation step applied to the header followed by the first 20
  structured-point lines, in their original order and joined by newlines; in
  particular, when there is no structured-point line the body is empty (there is no
  fallback to the raw content).
\<close>

theorem create_summary_body:
  assumes "\<forall>l \<in> set (split_on CHR ''\<newline>'' C). \<not> other_digit_line l"
  shows "create_summary C B =
           truncate_summary B (summary_header (length (structured_points C)) @
                               join ''\<newline>'' (take 20 (structured_points C)))
         \<and> (structured_points C = [] \<longrightarrow>
              create_summary C B = truncate_summary B (summary_header 0))"
  using key_points_structured [OF assms] by (simp add: create_summary_def Let_def)

text \<open>
  A content with a heading, three structured points and a plain line.
\<close>

theorem create_summary_body_witness:
  "list_all (\<lambda>l. \<not> other_digit_line l) (split_on CHR ''\<newline>'' ''# Plan\<newline>- a\<newline>  * b\<newline>1. one\<newline>text'')
   \<and> create_summary ''# Plan\<newline>- a\<newline>  * b\<newline>1. one\<newline>text'' 2000 =
       ''SUMMARY (3 key points):\<newline>\<newline>- a\<newline>  * b\<newline>1. one''"
proof -
  have h: "\<forall>l \<in> set (split_on CHR ''\<newline>'' ''# Plan\<newline>- a\<newline>  * b\<newline>1. one\<newline>text''). \<not> other_digit_line l"
    by code_simp
  have "truncate_summary 2000 (summary_header (length (structured_points ''# Plan\<newline>- a\<newline>  * b\<newline>1. one\<newline>text'')) @
                               join ''\<newline>'' (take 20 (structured_points ''# Plan\<newline>- a\<newline>  * b\<newline>1. one\<newline>text'')))
     = ''SUMMARY (3 key points):\<newline>\<newline>- a\<newline>  * b\<newline>1. one''"
    by code_simp
  with h create_summary_body [OF h, of 2000] show ?thesis by (simp add: list_all_iff)
qed

text \<open>
  C8 as stated fails on content without structured points: the body is empty, not the
  first characters of the content.
\<close>

theorem create_summary_body_counterexample:
  "key_points_of ''hello world'' = []
   \<and> create_summary ''hello world'' 2000 = ''SUMMARY (0 key points):\<newline>\<newline>''
   \<and> \<not> contains (create_summary ''hello world'' 2000) ''h''"
  by code_simp


section \<open>The human checkpoint\<close>

lemma recognized_iff: "recognized line = (says_yes line \<or> says_no line)"
  unfolding recognized_def says_yes_def says_no_def by auto

lemma approval_loop_step:
  "approval_loop data (line # rest) =
     (if says_yes line then (Return True, rest)
      else if says_no line then (Return False, rest)
      else approval_loop data rest)"
  unfolding says_yes_def says_no_def by (simp add: Let_def handle_modify_def)

lemma approval_loop_skip:
  "\<forall>x \<in> set pre. \<not> recognized x \<Longrightarrow> approval_loop data (pre @ ins) = approval_loop data ins"
  by (induction pre) (simp_all add: approval_loop_step recognized_iff del: approval_loop.simps)

lemma approval_loop_unrecognized:
  "\<forall>x \<in> set ins. \<not> recognized x \<Longrightarrow> approval_loop data ins = (Raise EOFError, [])"
  by (induction ins) (simp_all add: approval_loop_step recognized_iff del: approval_loop.simps(2))

lemma approval_loop_return:
  "approval_loop data ins = (Return b, rest) \<Longrightarrow>
     \<exists>pre line. ins = pre @ line # rest \<and> (\<forall>x \<in> set pre. \<not> recognized x) \<and>
        (if b then says_yes line else says_no line)"
proof (induction ins)
  case Nil
  then show ?case by simp
next
  case (Cons a ins)
  show ?case
  proof (cases "recognized a")
    case True
    with Cons.prems have "rest = ins \<and> (if b then says_yes a else says_no a)"
      by (auto simp: approval_loop_step recognized_iff simp del: approval_loop.simps split: if_splits)
    then show ?thesis by (rule_tac x = "[]" in exI, rule_tac x = a in exI) simp
  next
    case False
    with Cons.prems have "approval_loop data ins = (Return b, rest)"
      by (simp add: approval_loop_step recognized_iff del: approval_loop.simps)
    from Cons.IH [OF this] obtain pre line where
      "ins = pre @ line # rest" "\<forall>x \<in> set pre. \<not> recognized x"
      "if b then says_yes line else says_no line"
      by blast
    with False show ?thesis
      by (rule_tac x = "a # pre" in exI, rule_tac x = line in exI) simp
  qed
qed

text \<open>
  The loop on an input that never ends: it returns at the first recognized line, and
  without such a line it does not return.
\<close>

lemma approval_stream_step:
  "approval_stream data inp i =
     (if says_yes (inp i) then Some (True, Suc i)
      else if says_no (inp i) then Some (False, Suc i)
      else approval_stream data inp (Suc i))"
  unfolding says_yes_def says_no_def
  by (subst approval_stream.simps) (simp add: Let_def handle_modify_def)

lemma approval_stream_returns:
  assumes "\<forall>k < n. \<not> recognized (inp (i + k))" and "recognized (inp (i + n))"
  shows "approval_stream data inp i = Some (says_yes (inp (i + n)), Suc (i + n))"
  using assms
proof (induction n arbitrary: i)
  case 0
  then show ?case
    by (subst approval_stream_step) (auto simp: recognized_iff)
next
  case (Suc n)
  have "\<not> recognized (inp (i + 0))" using Suc.prems(1) by blast
  then have "\<not> recognized (inp i)" by simp
  then have "approval_stream data inp i = approval_stream data inp (Suc i)"
    by (subst approval_stream_step) (simp add: recognized_iff)
  moreover have "approval_stream data inp (Suc i) = Some (says_yes (inp (Suc i + n)), Suc (Suc i + n))"
  proof (rule Suc.IH)
    show "\<forall>k<n. \<not> recognized (inp (Suc i + k))"
    proof (intro allI impI)
      fix k assume "k < n"
      then have "Suc k < Suc n" by simp
      with Suc.prems(1) have "\<not> recognized (inp (i + Suc k))" by blast
      then show "\<not> recognized (inp (Suc i + k))" by simp
    qed
    show "recognized (inp (Suc i + n))" using Suc.prems(2) by simp
  qed
  ultimately show ?case by simp
qed

lemma approval_stream_Some:
  assumes "approval_stream data inp i = Some r"
  shows "\<exists>k. i \<le> k \<and> recognized (inp k)"
proof (rule approval_stream.raw_induct [OF _ assms])
  fix f :: "(string \<times> string) list \<Rightarrow> (nat \<Rightarrow> string) \<Rightarrow> nat \<Rightarrow> (bool \<times> nat) option"
  fix d :: "(string \<times> string) list" and inp' :: "nat \<Rightarrow> string" and j :: nat and y :: "bool \<times> nat"
  assume IH: "\<And>d inp j y. f d inp j = Some y \<Longrightarrow> \<exists>k. j \<le> k \<and> recognized (inp k)"
    and body: "(let response = lower (inp' j)
      in if response \<in> set [''yes'', ''y''] then Some (True, Suc j)
         else if response \<in> set [''no'', ''n''] then Some (False, Suc j)
              else if response \<in> set [''modify'', ''m'']
                   then Some (handle_modify d, Suc j)
                   else f d inp' (Suc j)) = Some y"
  show "\<exists>k. j \<le> k \<and> recognized (inp' k)"
  proof (cases "recognized (inp' j)")
    case True
    then have "j \<le> j \<and> recognized (inp' j)" by simp
    then show ?thesis by (rule exI)
  next
    case False
    then have "lower (inp' j) \<notin> set [''yes'', ''y''] \<and> lower (inp' j) \<notin> set [''no'', ''n'']
      \<and> lower (inp' j) \<notin> set [''modify'', ''m'']"
      by (simp add: recognized_def)
    with body have "f d inp' (Suc j) = Some y"
      by (simp only: Let_def if_False)
    from IH [OF this] obtain k where "Suc j \<le> k" and "recognized (inp' k)" by blast
    then have "j \<le> k \<and> recognized (inp' k)" by simp
    then show ?thesis by (rule exI)
  qed
qed

lemma approval_stream_never:
  assumes "\<forall>k \<ge> i. \<not> recognized (inp k)"
  shows "approval_stream data inp i = None"
proof (cases "approval_stream data inp i")
  case None
  then show ?thesis .
next
  case (Some r)
  from approval_stream_Some [OF this] obtain k where "i \<le> k" and "recognized (inp k)" by blast
  with assms show ?thesis by blast
qed

lemma request_approval_skip:
  assumes "stdin w = line # rest" and "\<not> recognized line"
  shows "request_approval c data w = request_approval c data (w\<lparr>stdin := rest\<rparr>)"
proof -
  from assms(2) have "approval_loop data (line # rest) = approval_loop data rest"
    by (simp add: approval_loop_step recognized_iff del: approval_loop.simps)
  with assms(1) show ?thesis
    by (simp add: request_approval_def split: prod.splits outcome.splits)
qed

lemma request_approval_at:
  assumes "stdin w = pre @ line # rest" and "\<forall>x \<in> set pre. \<not> recognized x" and "recognized line"
  shows "request_approval c data w =
           (Return (says_yes line), w\<lparr>stdin := rest, trace := trace w @ [Decided c (says_yes line)]\<rparr>)"
proof -
  from assms(3) have "approval_loop data (line # rest) = (Return (says_yes line), rest)"
    by (auto simp: approval_loop_step recognized_iff simp del: approval_loop.simps)
  with assms(1,2) have "approval_loop data (stdin w) = (Return (says_yes line), rest)"
    by (simp add: approval_loop_skip del: approval_loop.simps)
  then show ?thesis by (simp add: request_approval_def)
qed

lemma says_no_not_yes: "says_no line \<Longrightarrow> \<not> says_yes line"
  unfolding says_yes_def says_no_def by auto

lemma request_approval_Return:
  assumes "request_approval c data w = (Return b, w')"
  shows "\<exists>pre line. stdin w = pre @ line # stdin w' \<and> (\<forall>x \<in> set pre. \<not> recognized x)
           \<and> recognized line \<and> b = says_yes line \<and> trace w' = trace w @ [Decided c b]"
proof -
  from assms obtain rest where l: "approval_loop data (stdin w) = (Return b, rest)"
    and w': "w' = w\<lparr>stdin := rest, trace := trace w @ [Decided c b]\<rparr>"
    by (auto simp: request_approval_def split: prod.splits outcome.splits)
  from approval_loop_return [OF l] obtain pre line where
    p: "stdin w = pre @ line # rest" "\<forall>x \<in> set pre. \<not> recognized x"
    "if b then says_yes line else says_no line"
    by blast
  from p(3) have "recognized line \<and> b = says_yes line"
    by (cases b) (auto simp: recognized_iff says_no_not_yes)
  with p(1,2) w' show ?thesis
    by (rule_tac x = pre in exI, rule_tac x = line in exI) simp
qed

text \<open>
  C10: \<open>request_approval\<close> returns \<open>True\<close> when the first recognized line of the input
  lowercases to yes or y, and \<open>False\<close> when it lowercases to no, n, modify or m; in both
  cases it has read the input up to that line and records the decision. A line that is
  not recognized is passed over: the call behaves as on the rest of the input. Whenever
  the call returns a decision, the lines read before the deciding one were all
  unrecognized, the deciding line is recognized, and the decision is an approval exactly
  when that line lowercases to yes or y. On input without a recognized line the call
  returns no decision: it reads to the end, where \<open>input()\<close> raises \<open>EOFError\<close>.
\<close>

theorem request_approval_decides:
  "(stdin w = pre @ line # rest \<and> (\<forall>x \<in> set pre. \<not> recognized x) \<and> lower line \<in> set [''yes'', ''y''] \<longrightarrow>
      request_approval c data w =
        (Return True, w\<lparr>stdin := rest, trace := trace w @ [Decided c True]\<rparr>))
   \<and> (stdin w = pre @ line # rest \<and> (\<forall>x \<in> set pre. \<not> recognized x)
        \<and> lower line \<in> set [''no'', ''n'', ''modify'', ''m''] \<longrightarrow>
      request_approval c data w =
        (Return False, w\<lparr>stdin := rest, trace := trace w @ [Decided c False]\<rparr>))
   \<and> (stdin w = line # rest \<and> \<not> recognized line \<longrightarrow>
      request_approval c data w = request_approval c data (w\<lparr>stdin := rest\<rparr>))
   \<and> (request_approval c data w = (Return b, w') \<longrightarrow>
      (\<exists>pre l. stdin w = pre @ l # stdin w' \<and> (\<forall>x \<in> set pre. \<not> recognized x) \<and> recognized l
          \<and> b = (lower l \<in> set [''yes'', ''y''])))
   \<and> ((\<forall>x \<in> set (stdin w). \<not> recognized x) \<longrightarrow>
      request_approval c data w = (Raise EOFError, w\<lparr>stdin := []\<rparr>))"
proof (intro conjI impI)
  assume h: "stdin w = pre @ line # rest \<and> (\<forall>x \<in> set pre. \<not> recognized x) \<and> lower line \<in> set [''yes'', ''y'']"
  then have y: "says_yes line" by (simp only: says_yes_def)
  then have "recognized line" by (simp add: recognized_iff)
  with h have "request_approval c data w =
           (Return (says_yes line), w\<lparr>stdin := rest, trace := trace w @ [Decided c (says_yes line)]\<rparr>)"
    by (intro request_approval_at) blast+
  with y show "request_approval c data w =
        (Return True, w\<lparr>stdin := rest, trace := trace w @ [Decided c True]\<rparr>)"
    by simp
next
  assume h: "stdin w = pre @ line # rest \<and> (\<forall>x \<in> set pre. \<not> recognized x)
        \<and> lower line \<in> set [''no'', ''n'', ''modify'', ''m'']"
  then have n: "says_no line" by (simp only: says_no_def)
  then have r: "recognized line" and y: "\<not> says_yes line"
    by (simp_all add: recognized_iff says_no_not_yes)
  from h r have "request_approval c data w =
           (Return (says_yes line), w\<lparr>stdin := rest, trace := trace w @ [Decided c (says_yes line)]\<rparr>)"
    by (intro request_approval_at) blast+
  with y show "request_approval c data w =
        (Return False, w\<lparr>stdin := rest, trace := trace w @ [Decided c False]\<rparr>)"
    by simp
next
  assume "stdin w = line # rest \<and> \<not> recognized line"
  then show "request_approval c data w = request_approval c data (w\<lparr>stdin := rest\<rparr>)"
    by (intro request_approval_skip) blast+
next
  assume "request_approval c data w = (Return b, w')"
  from request_approval_Return [OF this] obtain pre l where
    "stdin w = pre @ l # stdin w'" "\<forall>x \<in> set pre. \<not> recognized x" "recognized l" "b = says_yes l"
    by blast
  then show "\<exists>pre l. stdin w = pre @ l # stdin w' \<and> (\<forall>x \<in> set pre. \<not> recognized x) \<and> recognized l
          \<and> b = (lower l \<in> set [''yes'', ''y''])"
    by (rule_tac x = pre in exI, rule_tac x = l in exI) (simp only: says_yes_def simp_thms)
next
  assume "\<forall>x \<in> set (stdin w). \<not> recognized x"
  then have "approval_loop data (stdin w) = (Raise EOFError, [])" by (rule approval_loop_unrecognized)
  then show "request_approval c data w = (Raise EOFError, w\<lparr>stdin := []\<rparr>)"
    by (simp add: request_approval_def)
qed

text \<open>
  The plan checkpoint on four inputs: an approval and a rejection after one unrecognized
  line, an unrecognized first line, and input without any recognized line.
\<close>

theorem request_approval_decides_witness:
  "request_approval ''Plan Review'' [] (sim_world (sim_repo [] [] []) [''ok'', ''Yes'', ''n'']) =
     (Return True, (sim_world (sim_repo [] [] []) [''ok'', ''Yes'', ''n''])
        \<lparr>stdin := [''n''],
         trace := trace (sim_world (sim_repo [] [] []) [''ok'', ''Yes'', ''n'']) @ [Decided ''Plan Review'' True]\<rparr>)
   \<and> request_approval ''Plan Review'' [] (sim_world (sim_repo [] [] []) [''maybe'', ''N'', ''y'']) =
     (Return False, (sim_world (sim_repo [] [] []) [''maybe'', ''N'', ''y''])
        \<lparr>stdin := [''y''],
         trace := trace (sim_world (sim_repo [] [] []) [''maybe'', ''N'', ''y'']) @ [Decided ''Plan Review'' False]\<rparr>)
   \<and> request_approval ''Plan Review'' [] (sim_world (sim_repo [] [] []) [''ok'', ''y'']) =
       request_approval ''Plan Review'' [] ((sim_world (sim_repo [] [] []) [''ok'', ''y''])\<lparr>stdin := [''y'']\<rparr>)
   \<and> (\<exists>pre l. stdin (sim_world (sim_repo [] [] []) [''ok'', ''Yes'', ''n'']) = pre @ l # [''n'']
          \<and> (\<forall>x \<in> set pre. \<not> recognized x) \<and> recognized l \<and> lower l \<in> set [''yes'', ''y''])
   \<and> request_approval ''Plan Review'' [] (sim_world (sim_repo [] [] []) [''ok'', ''sure'']) =
     (Raise EOFError, (sim_world (sim_repo [] [] []) [''ok'', ''sure''])\<lparr>stdin := []\<rparr>)"
proof -
  let ?w1 = "sim_world (sim_repo [] [] []) [''ok'', ''Yes'', ''n'']"
  let ?w2 = "sim_world (sim_repo [] [] []) [''maybe'', ''N'', ''y'']"
  let ?w3 = "sim_world (sim_repo [] [] []) [''ok'', ''y'']"
  let ?w4 = "sim_world (sim_repo [] [] []) [''ok'', ''sure'']"
  let ?w1' = "?w1\<lparr>stdin := [''n''], trace := trace ?w1 @ [Decided ''Plan Review'' True]\<rparr>"
  have ok: "\<not> recognized ''ok''" by code_simp
  have maybe: "\<not> recognized ''maybe''" by code_simp
  have sure: "\<not> recognized ''sure''" by code_simp
  have yes: "lower ''Yes'' \<in> set [''yes'', ''y'']" by code_simp
  have no: "lower ''N'' \<in> set [''no'', ''n'', ''modify'', ''m'']" by code_simp
  have h1: "stdin ?w1 = [''ok''] @ ''Yes'' # [''n''] \<and> (\<forall>x \<in> set [''ok'']. \<not> recognized x)
      \<and> lower ''Yes'' \<in> set [''yes'', ''y'']"
    using ok yes by (simp add: sim_world_def)
  have h2: "stdin ?w2 = [''maybe''] @ ''N'' # [''y''] \<and> (\<forall>x \<in> set [''maybe'']. \<not> recognized x)
      \<and> lower ''N'' \<in> set [''no'', ''n'', ''modify'', ''m'']"
    using maybe no by (simp add: sim_world_def)
  have h3: "stdin ?w3 = ''ok'' # [''y''] \<and> \<not> recognized ''ok''"
    using ok by (simp add: sim_world_def)
  have h5: "\<forall>x \<in> set (stdin ?w4). \<not> recognized x"
    using ok sure by (simp add: sim_world_def)
  note t1 = request_approval_decides [of ?w1 "[''ok'']" "''Yes''" "[''n'']" "''Plan Review''" "[]" True ?w1']
  note t2 = request_approval_decides [of ?w2 "[''maybe'']" "''N''" "[''y'']" "''Plan Review''" "[]" True ?w1']
  note t3 = request_approval_decides [of ?w3 "[]" "''ok''" "[''y'']" "''Plan Review''" "[]" True ?w1']
  note t5 = request_approval_decides [of ?w4 "[]" "''ok''" "[]" "''Plan Review''" "[]" True ?w1']
  from h1 have 1: "request_approval ''Plan Review'' [] ?w1 = (Return True, ?w1')"
    by (rule t1 [THEN conjunct1, THEN mp])
  from h2 have 2: "request_approval ''Plan Review'' [] ?w2 =
      (Return False, ?w2\<lparr>stdin := [''y''], trace := trace ?w2 @ [Decided ''Plan Review'' False]\<rparr>)"
    by (rule t2 [THEN conjunct2, THEN conjunct1, THEN mp])
  from h3 have 3: "request_approval ''Plan Review'' [] ?w3 =
      request_approval ''Plan Review'' [] (?w3\<lparr>stdin := [''y'']\<rparr>)"
    by (rule t3 [THEN conjunct2, THEN conjunct2, THEN conjunct1, THEN mp])
  from 1 have "\<exists>pre l. stdin ?w1 = pre @ l # stdin ?w1' \<and> (\<forall>x \<in> set pre. \<not> recognized x) \<and> recognized l
          \<and> True = (lower l \<in> set [''yes'', ''y''])"
    by (rule t1 [THEN conjunct2, THEN conjunct2, THEN conjunct2, THEN conjunct1, THEN mp])
  then have 4: "\<exists>pre l. stdin ?w1 = pre @ l # [''n'']
          \<and> (\<forall>x \<in> set pre. \<not> recognized x) \<and> recognized l \<and> lower l \<in> set [''yes'', ''y'']"
    by simp
  from h5 have 5: "request_approval ''Plan Review'' [] ?w4 = (Raise EOFError, ?w4\<lparr>stdin := []\<rparr>)"
    by (rule t5 [THEN conjunct2, THEN conjunct2, THEN conjunct2, THEN conjunct2, THEN mp])
  from 1 2 3 4 5 show ?thesis by (intro conjI)
qed

text \<open>
  C7: at every checkpoint a response that lowercases to modify or m, arriving after
  any number of unrecognized lines, makes \<open>request_approval\<close> return \<open>False\<close>, and the
  decision recorded is the rejection; the result is a truth value, so there is no
  third variant.
\<close>

theorem modify_is_reject:
  assumes "lower line \<in> set [''modify'', ''m'']" and "\<forall>x \<in> set pre. \<not> recognized x"
    and "stdin w = pre @ line # rest"
  shows "request_approval checkpoint_type data w =
           (Return False, w\<lparr>stdin := rest, trace := trace w @ [Decided checkpoint_type False]\<rparr>)"
proof -
  from assms(1) have n: "says_no line" unfolding says_no_def by simp
  then have "\<not> says_yes line" unfolding says_yes_def says_no_def by auto
  with n have "approval_loop data (line # rest) = (Return False, rest)"
    by (simp only: approval_loop_step if_True if_False)
  then have "approval_loop data (stdin w) = (Return False, rest)"
    using assms(2,3) by (simp add: approval_loop_skip del: approval_loop.simps)
  then show ?thesis by (simp add: request_approval_def)
qed

text \<open>
  The response "Modify" after one unrecognized line at the plan checkpoint.
\<close>

theorem modify_is_reject_witness:
  "lower ''Modify'' \<in> set [''modify'', ''m''] \<and> \<not> recognized ''hmm''
   \<and> stdin (sim_world (sim_repo [] [] []) [''hmm'', ''Modify'', ''y'']) = [''hmm''] @ ''Modify'' # [''y'']
   \<and> request_approval ''Plan Review'' [] (sim_world (sim_repo [] [] []) [''hmm'', ''Modify'', ''y'']) =
       (Return False, (sim_world (sim_repo [] [] []) [''hmm'', ''Modify'', ''y''])
          \<lparr>stdin := [''y''], trace := trace (sim_world (sim_repo [] [] []) [''hmm'', ''Modify'', ''y'']) @ [Decided ''Plan Review'' False]\<rparr>)"
proof -
  have a: "lower ''Modify'' \<in> set [''modify'', ''m'']" by code_simp
  have b: "\<forall>x \<in> set [''hmm'']. \<not> recognized x" by code_simp
  have c: "stdin (sim_world (sim_repo [] [] []) [''hmm'', ''Modify'', ''y'']) = [''hmm''] @ ''Modify'' # [''y'']"
    by (simp add: sim_world_def)
  have d: "\<not> recognized ''hmm''" by code_simp
  from modify_is_reject [OF a b c] a d c show ?thesis by (intro conjI)
qed


section \<open>The worktree manager\<close>

lemma create_worktree_Some:
  "create_worktree E base b i w = (Return (Some p), w1) \<Longrightarrow> p = worktree_path base b"
  by (auto simp: create_worktree_def Let_def bind_def run_cmd_def ret_def
      split: if_splits prod.splits sum.splits)

text \<open>
  C6: when the worktree directory of a branch exists, \<open>create_worktree\<close> returns
  \<open>None\<close> and leaves the world as it was: no command is run, so no directory and no
  branch is created. In particular a second call, made after a first call returned the
  path and the directory is there, returns \<open>None\<close> without any effect.
\<close>

theorem create_worktree_existing:
  "(path_exists E (ext w) (worktree_path base b) \<longrightarrow>
      create_worktree E base b i w = (Return None, w))
   \<and> (create_worktree E base b i w = (Return (Some p), w1) \<and> path_exists E (ext w1) p \<longrightarrow>
        create_worktree E base b i2 w1 = (Return None, w1))"
proof (intro conjI impI)
  assume "path_exists E (ext w) (worktree_path base b)"
  then show "create_worktree E base b i w = (Return None, w)"
    by (simp add: create_worktree_def)
next
  assume a: "create_worktree E base b i w = (Return (Some p), w1) \<and> path_exists E (ext w1) p"
  then have "p = worktree_path base b" by (blast dest: create_worktree_Some)
  with a show "create_worktree E base b i2 w1 = (Return None, w1)"
    by (simp add: create_worktree_def)
qed

text \<open>
  Two calls for the branch \<open>b1\<close> in the reference environment.
\<close>

theorem create_worktree_existing_witness:
  "fst (create_worktree sim_env ''/repo'' ''b1'' None (sim_world (sim_repo [] [] []) []))
     = Return (Some ''/repo/worktrees/b1'')
   \<and> path_exists sim_env
        (ext (snd (create_worktree sim_env ''/repo'' ''b1'' None (sim_world (sim_repo [] [] []) []))))
        ''/repo/worktrees/b1''
   \<and> create_worktree sim_env ''/repo'' ''b1'' None
        (snd (create_worktree sim_env ''/repo'' ''b1'' None (sim_world (sim_repo [] [] []) [])))
      = (Return None, snd (create_worktree sim_env ''/repo'' ''b1'' None (sim_world (sim_repo [] [] []) [])))"
proof -
  let ?w0 = "sim_world (sim_repo [] [] []) []"
  let ?c = "create_worktree sim_env ''/repo'' ''b1'' None ?w0"
  have a: "fst ?c = Return (Some ''/repo/worktrees/b1'')" by code_simp
  have b: "path_exists sim_env (ext (snd ?c)) ''/repo/worktrees/b1''" by code_simp
  from a have "?c = (Return (Some ''/repo/worktrees/b1''), snd ?c)"
    by (metis prod.collapse)
  with b create_worktree_existing [of sim_env "?w0" "''/repo''" "''b1''" None "''/repo/worktrees/b1''" "snd ?c" None]
  have "create_worktree sim_env ''/repo'' ''b1'' None (snd ?c) = (Return None, snd ?c)"
    by blast
  with a b show ?thesis by (intro conjI)
qed

text \<open>
  C1: on a branch whose merge fails with a conflict (return code 1), \<open>merge_worktree\<close>
  still runs \<open>git worktree remove\<close> and \<open>git branch -d\<close> and returns \<open>True\<close>; in the
  reference environment the worktree directory is gone afterwards.
\<close>

theorem merge_worktree_conflict:
  "fst (sim_exec [''git'', ''merge'', ''--no-ff'', ''b1''] (sim_repo [''/repo/worktrees/b1''] [''b1''] [''b1'']))
     = Inr (1, [])
   \<and> fst (merge_worktree sim_env ''/repo'' ''b1''
        (sim_world (sim_repo [''/repo/worktrees/b1''] [''b1''] [''b1'']) [])) = Return True
   \<and> trace (snd (merge_worktree sim_env ''/repo'' ''b1''
        (sim_world (sim_repo [''/repo/worktrees/b1''] [''b1''] [''b1'']) []))) =
       [Command [''git'', ''checkout'', ''main''],
        Command [''git'', ''merge'', ''--no-ff'', ''b1''],
        Command [''git'', ''worktree'', ''remove'', ''/repo/worktrees/b1''],
        Command [''git'', ''branch'', ''-d'', ''b1'']]
   \<and> sim_dirs (ext (snd (merge_worktree sim_env ''/repo'' ''b1''
        (sim_world (sim_repo [''/repo/worktrees/b1''] [''b1''] [''b1'']) [])))) = []"
  by code_simp

lemma run_cmd_total:
  assumes "\<And>argv r. \<exists>res r'. exec E argv r = (Inr res, r')"
  shows "\<exists>res w'. run_cmd E argv w = (Return res, w') \<and> trace w' = trace w @ [Command argv]"
proof -
  from assms obtain res r' where "exec E argv (ext w) = (Inr res, r')" by blast
  then show ?thesis by (simp add: run_cmd_def)
qed

text \<open>
  The same in every environment whose commands start: whatever the return code of the
  merge, the two clean-up commands follow and the result is \<open>True\<close>.
\<close>

lemma merge_worktree_always_cleans_up:
  assumes ex: "path_exists E (ext w) (worktree_path base b)"
    and tot: "\<And>argv r. \<exists>res r'. exec E argv r = (Inr res, r')"
  shows "fst (merge_worktree E base b w) = Return True \<and>
         trace (snd (merge_worktree E base b w)) = trace w @
           [Command [''git'', ''checkout'', ''main''],
            Command [''git'', ''merge'', ''--no-ff'', b],
            Command [''git'', ''worktree'', ''remove'', worktree_path base b],
            Command [''git'', ''branch'', ''-d'', b]]"
proof -
  obtain r1 w1 where 1: "run_cmd E [''git'', ''checkout'', ''main''] w = (Return r1, w1)"
    "trace w1 = trace w @ [Command [''git'', ''checkout'', ''main'']]"
    using run_cmd_total [OF tot] by blast
  obtain r2 w2 where 2: "run_cmd E [''git'', ''merge'', ''--no-ff'', b] w1 = (Return r2, w2)"
    "trace w2 = trace w1 @ [Command [''git'', ''merge'', ''--no-ff'', b]]"
    using run_cmd_total [OF tot] by blast
  obtain r3 w3 where 3: "run_cmd E [''git'', ''worktree'', ''remove'', worktree_path base b] w2 = (Return r3, w3)"
    "trace w3 = trace w2 @ [Command [''git'', ''worktree'', ''remove'', worktree_path base b]]"
    using run_cmd_total [OF tot] by blast
  obtain r4 w4 where 4: "run_cmd E [''git'', ''branch'', ''-d'', b] w3 = (Return r4, w4)"
    "trace w4 = trace w3 @ [Command [''git'', ''branch'', ''-d'', b]]"
    using run_cmd_total [OF tot] by blast
  have "merge_worktree E base b w = (Return True, w4)"
    using ex 1(1) 2(1) 3(1) 4(1) by (simp add: merge_worktree_def bind_def ret_def)
  with 1(2) 2(2) 3(2) 4(2) show ?thesis by simp
qed

section \<open>Summary and archived document\<close>

lemma bind_Return:
  assumes "bind m f w = (Return y, w')"
  obtains x w1 where "m w = (Return x, w1)" and "f x w1 = (Return y, w')"
  using assms by (auto simp: bind_def split: prod.splits outcome.splits)

lemma save_full_output_Return:
  "save_full_output E d a ph c w = (Return fp, w') \<Longrightarrow> files w' fp = Some c"
  by (auto simp: save_full_output_def Let_def split: option.splits)

lemma log_Return: "log ev w = (Return u, w0) \<Longrightarrow> w0 = w\<lparr>trace := trace w @ [ev]\<rparr>"
  by (auto simp: log_def)

lemma ret_Return: "ret x w = (Return y, w') \<Longrightarrow> y = x \<and> w' = w"
  by (auto simp: ret_def)

lemma research_execute_stores:
  assumes "research_execute E base topic sources w = (Return res, w')"
  shows "\<exists>doc wb.
           create_research_document E topic (search_knowledge_base topic) (search_code_examples topic)
             (review_docs topic) (w\<lparr>trace := trace w @ [Executed Research]\<rparr>) = (Return doc, wb)
         \<and> save_full_output E (firewall_dir base) ''research'' topic doc wb = (Return (full_document res), w')
         \<and> files w' (full_document res) = Some doc
         \<and> summary res = create_summary doc 2000"
proof -
  from assms obtain u w0 doc wb fp w3 where
    l: "log (Executed Research) w = (Return u, w0)"
    and c: "create_research_document E topic (search_knowledge_base topic) (search_code_examples topic)
             (review_docs topic) w0 = (Return doc, wb)"
    and s: "save_full_output E (firewall_dir base) ''research'' topic doc wb = (Return fp, w3)"
    and r: "ret \<lparr>summary = create_summary doc 2000, full_document = fp,
              findings_count = length (search_knowledge_base topic) + length (search_code_examples topic),
              recommendation = generate_recommendation (search_knowledge_base topic) (search_code_examples topic)\<rparr> w3
          = (Return res, w')"
    unfolding research_execute_def Let_def by (elim bind_Return) blast
  from ret_Return [OF r] have e: "w' = w3" "summary res = create_summary doc 2000" "full_document res = fp"
    by auto
  from c log_Return [OF l] s e save_full_output_Return [OF s] show ?thesis by auto
qed

lemma plan_execute_stores:
  assumes "plan_execute E base task rs w = (Return res, w')"
  shows "\<exists>tasks wb.
           break_into_tasks E task rs (w\<lparr>trace := trace w @ [Executed Plan]\<rparr>) = (Return tasks, wb)
         \<and> save_full_output E (firewall_dir base) ''plan'' task (plan_document E task tasks) wb
             = (Return (full_document res), w')
         \<and> files w' (full_document res) = Some (plan_document E task tasks)
         \<and> summary res = create_summary (plan_document E task tasks) 2000"
proof -
  from assms obtain u w0 tasks wb fp w3 where
    l: "log (Executed Plan) w = (Return u, w0)"
    and c: "break_into_tasks E task rs w0 = (Return tasks, wb)"
    and s: "save_full_output E (firewall_dir base) ''plan'' task (plan_document E task tasks) wb = (Return fp, w3)"
    and r: "ret \<lparr>summary = create_summary (plan_document E task tasks) 2000, full_document = fp,
              task_count = length tasks, estimated_hours = total_hours tasks,
              plan_approved = False\<rparr> w3
          = (Return res, w')"
    unfolding plan_execute_def Let_def by (elim bind_Return) blast
  from ret_Return [OF r] have e: "w' = w3"
    "summary res = create_summary (plan_document E task tasks) 2000" "full_document res = fp"
    by auto
  from c log_Return [OF l] s e save_full_output_Return [OF s] show ?thesis by auto
qed

lemma implement_execute_stores:
  assumes "implement_execute E base wt ps task w = (Return res, w')"
  shows "save_full_output E (firewall_dir base) ''implement'' task
             (create_implementation_report task (implement_features wt ps)
                (commit_changes wt (implement_features wt ps)))
             (w\<lparr>trace := trace w @ [Executed Implement]\<rparr>) = (Return (full_document res), w')
         \<and> files w' (full_document res) =
             Some (create_implementation_report task (implement_features wt ps)
                     (commit_changes wt (implement_features wt ps)))
         \<and> summary res =
             create_summary (create_implementation_report task (implement_features wt ps)
                               (commit_changes wt (implement_features wt ps))) 2000"
proof -
  let ?doc = "create_implementation_report task (implement_features wt ps)
                (commit_changes wt (implement_features wt ps))"
  from assms obtain u w0 fp w3 where
    l: "log (Executed Implement) w = (Return u, w0)"
    and s: "save_full_output E (firewall_dir base) ''implement'' task ?doc w0 = (Return fp, w3)"
    and r: "ret \<lparr>summary = create_summary ?doc 2000, full_document = fp,
              files_created = length (implement_features wt ps),
              commits = length (commit_changes wt (implement_features wt ps)),
              implementation_worktree = wt\<rparr> w3
          = (Return res, w')"
    unfolding implement_execute_def Let_def by (elim bind_Return) blast
  from ret_Return [OF r] have e: "w' = w3" "summary res = create_summary ?doc 2000" "full_document res = fp"
    by auto
  from log_Return [OF l] s e save_full_output_Return [OF s] show ?thesis by auto
qed

lemma validate_execute_stores:
  assumes "validate_execute E base wt task w = (Return res, w')"
  shows "save_full_output E (firewall_dir base) ''validate'' task (validation_report E task)
             (w\<lparr>trace := trace w @ [Executed Validate]\<rparr>) = (Return (full_document res), w')
         \<and> files w' (full_document res) = Some (validation_report E task)
         \<and> summary res = create_summary (validation_report E task) 2000"
proof -
  from assms obtain u w0 fp w3 where
    l: "log (Executed Validate) w = (Return u, w0)"
    and s: "save_full_output E (firewall_dir base) ''validate'' task (validation_report E task) w0 = (Return fp, w3)"
    and r: "ret \<lparr>summary = create_summary (validation_report E task) 2000, full_document = fp,
              all_passed = (True \<and> True \<and> True \<and> True), unit_total = 15, unit_coverage = ''85%'',
              integration_total = 8, security_vulnerabilities = 0\<rparr> w3
          = (Return res, w')"
    unfolding validate_execute_def Let_def by (elim bind_Return) blast
  from ret_Return [OF r] have e: "w' = w3"
    "summary res = create_summary (validation_report E task) 2000" "full_document res = fp"
    by auto
  from log_Return [OF l] s e save_full_output_Return [OF s] show ?thesis by auto
qed

text \<open>
  C4 (amended): the summary text holds no pointer; instead every agent returns, next to
  the summary, the path \<open>full_document\<close> that \<open>save_full_output\<close> returned when it
  stored the agent's full output: the document that the agent built (the research
  document, the plan of the tasks found, the implementation report, the validation
  report) is the content of the file at that path, and the summary is the one created
  from that same document.
\<close>

theorem summary_with_full_output:
  "(research_execute E base topic sources w = (Return res1, w1) \<longrightarrow>
      (\<exists>doc wb.
           create_research_document E topic (search_knowledge_base topic) (search_code_examples topic)
             (review_docs topic) (w\<lparr>trace := trace w @ [Executed Research]\<rparr>) = (Return doc, wb)
         \<and> save_full_output E (firewall_dir base) ''research'' topic doc wb = (Return (full_document res1), w1)
         \<and> files w1 (full_document res1) = Some doc
         \<and> summary res1 = create_summary doc 2000))
   \<and> (plan_execute E base task rs w = (Return res2, w2) \<longrightarrow>
      (\<exists>tasks wb.
           break_into_tasks E task rs (w\<lparr>trace := trace w @ [Executed Plan]\<rparr>) = (Return tasks, wb)
         \<and> save_full_output E (firewall_dir base) ''plan'' task (plan_document E task tasks) wb
             = (Return (full_document res2), w2)
         \<and> files w2 (full_document res2) = Some (plan_document E task tasks)
         \<and> summary res2 = create_summary (plan_document E task tasks) 2000))
   \<and> (implement_execute E base wt ps task w = (Return res3, w3) \<longrightarrow>
         save_full_output E (firewall_dir base) ''implement'' task
             (create_implementation_report task (implement_features wt ps)
                (commit_changes wt (implement_features wt ps)))
             (w\<lparr>trace := trace w @ [Executed Implement]\<rparr>) = (Return (full_document res3), w3)
         \<and> files w3 (full_document res3) =
             Some (create_implementation_report task (implement_features wt ps)
                     (commit_changes wt (implement_features wt ps)))
         \<and> summary res3 =
             create_summary (create_implementation_report task (implement_features wt ps)
                               (commit_changes wt (implement_features wt ps))) 2000)
   \<and> (validate_execute E base wt task w = (Return res4, w4) \<longrightarrow>
         save_full_output E (firewall_dir base) ''validate'' task (validation_report E task)
             (w\<lparr>trace := trace w @ [Executed Validate]\<rparr>) = (Return (full_document res4), w4)
         \<and> files w4 (full_document res4) = Some (validation_report E task)
         \<and> summary res4 = create_summary (validation_report E task) 2000)"
proof (intro conjI impI)
  assume "research_execute E base topic sources w = (Return res1, w1)"
  then show "\<exists>doc wb.
           create_research_document E topic (search_knowledge_base topic) (search_code_examples topic)
             (review_docs topic) (w\<lparr>trace := trace w @ [Executed Research]\<rparr>) = (Return doc, wb)
         \<and> save_full_output E (firewall_dir base) ''research'' topic doc wb = (Return (full_document res1), w1)
         \<and> files w1 (full_document res1) = Some doc
         \<and> summary res1 = create_summary doc 2000"
    by (rule research_execute_stores)
next
  assume "plan_execute E base task rs w = (Return res2, w2)"
  then show "\<exists>tasks wb.
           break_into_tasks E task rs (w\<lparr>trace := trace w @ [Executed Plan]\<rparr>) = (Return tasks, wb)
         \<and> save_full_output E (firewall_dir base) ''plan'' task (plan_document E task tasks) wb
             = (Return (full_document res2), w2)
         \<and> files w2 (full_document res2) = Some (plan_document E task tasks)
         \<and> summary res2 = create_summary (plan_document E task tasks) 2000"
    by (rule plan_execute_stores)
qed (use implement_execute_stores validate_execute_stores in blast)+

text \<open>
  The research agent on "add login", with a model that answers "- use sessions".
\<close>

theorem summary_with_full_output_witness:
  "fst (research_execute replying_env ''/repo'' ''add login'' [''kb'', ''code'', ''docs'']
          (sim_world (sim_repo [] [] []) []))
     = Return \<lparr>summary = ''SUMMARY (1 key points):\<newline>\<newline>- use sessions'',
               full_document = ''/repo/.autoflow/context-firewalls/research-add login-20250101-120000.md'',
               findings_count = 5,
               recommendation = ''Based on 3 patterns and 2 examples, recommend proceeding with implementation.''\<rparr>
   \<and> fst (create_research_document replying_env ''add login'' (search_knowledge_base ''add login'')
            (search_code_examples ''add login'') (review_docs ''add login'')
            ((sim_world (sim_repo [] [] []) [])
               \<lparr>trace := trace (sim_world (sim_repo [] [] []) []) @ [Executed Research]\<rparr>))
       = Return ''- use sessions''
   \<and> files (snd (research_execute replying_env ''/repo'' ''add login'' [''kb'', ''code'', ''docs'']
                    (sim_world (sim_repo [] [] []) [])))
        ''/repo/.autoflow/context-firewalls/research-add login-20250101-120000.md''
       = Some ''- use sessions''
   \<and> ''SUMMARY (1 key points):\<newline>\<newline>- use sessions'' = create_summary ''- use sessions'' 2000"
proof -
  let ?w = "sim_world (sim_repo [] [] []) []"
  let ?run = "research_execute replying_env ''/repo'' ''add login'' [''kb'', ''code'', ''docs''] ?w"
  let ?res = "\<lparr>summary = ''SUMMARY (1 key points):\<newline>\<newline>- use sessions'',
               full_document = ''/repo/.autoflow/context-firewalls/research-add login-20250101-120000.md'',
               findings_count = 5,
               recommendation = ''Based on 3 patterns and 2 examples, recommend proceeding with implementation.''\<rparr>"
  let ?crd = "create_research_document replying_env ''add login'' (search_knowledge_base ''add login'')
            (search_code_examples ''add login'') (review_docs ''add login'')
            (?w\<lparr>trace := trace ?w @ [Executed Research]\<rparr>)"
  have a: "fst ?run = Return ?res" by code_simp
  have c: "fst ?crd = Return ''- use sessions''" by code_simp
  from a have run: "?run = (Return ?res, snd ?run)" by (metis prod.collapse)
  note t = summary_with_full_output [of replying_env "''/repo''" "''add login''" "[''kb'', ''code'', ''docs'']"
      ?w ?res "snd ?run", THEN conjunct1, THEN mp]
  from run have "\<exists>doc wb. ?crd = (Return doc, wb)
         \<and> save_full_output replying_env (firewall_dir ''/repo'') ''research'' ''add login'' doc wb
              = (Return (full_document ?res), snd ?run)
         \<and> files (snd ?run) (full_document ?res) = Some doc
         \<and> summary ?res = create_summary doc 2000"
    by (rule t)
  then obtain doc wb where d: "?crd = (Return doc, wb)"
    "files (snd ?run) (full_document ?res) = Some doc" "summary ?res = create_summary doc 2000"
    by blast
  from d(1) c have "doc = ''- use sessions''" by simp
  with d(2,3) have "files (snd ?run) ''/repo/.autoflow/context-firewalls/research-add login-20250101-120000.md''
       = Some ''- use sessions''"
    and "''SUMMARY (1 key points):\<newline>\<newline>- use sessions'' = create_summary ''- use sessions'' 2000"
    by simp_all
  with a c show ?thesis by (intro conjI)
qed

text \<open>
  C4 as stated fails: the summary of an archived document does not contain the path
  that \<open>save_full_output\<close> returned for it.
\<close>

theorem summary_without_pointer_counterexample:
  "fst (save_full_output sim_env (firewall_dir ''/repo'') ''research'' ''auth'' ''- finding''
          (sim_world (sim_repo [] [] []) []))
     = Return ''/repo/.autoflow/context-firewalls/research-auth-20250101-120000.md''
   \<and> create_summary ''- finding'' 2000 = ''SUMMARY (1 key points):\<newline>\<newline>- finding''
   \<and> \<not> contains (create_summary ''- finding'' 2000)
         ''/repo/.autoflow/context-firewalls/research-auth-20250101-120000.md''"
  by code_simp

section \<open>Errors of the model call\<close>





section \<open>The order of the phases\<close>

lemma in_order_Nil: "in_order []"
  by (simp add: in_order_def)

lemma snoc_eq_split:
  assumes "t @ [ev] = pre @ x # post"
  shows "(post = [] \<and> pre = t \<and> x = ev) \<or> (\<exists>post'. post = post' @ [ev] \<and> t = pre @ x # post')"
proof (cases post rule: rev_cases)
  case Nil
  with assms show ?thesis by simp
next
  case (snoc post' y)
  with assms have "t @ [ev] = (pre @ x # post') @ [y]" by simp
  then have "t = pre @ x # post' \<and> ev = y" by (simp only: append1_eq_conv)
  with snoc show ?thesis by simp
qed

lemma in_order_snoc:
  assumes g: "in_order t" and nr: "\<not> rejected t"
    and n: "\<And>c. needs ev = Some c \<Longrightarrow> Decided c True \<in> set t"
  shows "in_order (t @ [ev])"
  unfolding in_order_def
proof (intro allI impI)
  fix pre x post
  assume eq: "t @ [ev] = pre @ x # post"
  from snoc_eq_split [OF eq]
  show "(\<forall>c. needs x = Some c \<longrightarrow> Decided c True \<in> set pre) \<and>
        ((\<exists>c. x = Decided c False) \<longrightarrow> post = [])"
  proof
    assume "post = [] \<and> pre = t \<and> x = ev"
    with n show ?thesis by simp
  next
    assume "\<exists>post'. post = post' @ [ev] \<and> t = pre @ x # post'"
    then obtain post' where p: "post = post' @ [ev]" "t = pre @ x # post'" by blast
    from g p(2) have a: "\<forall>c. needs x = Some c \<longrightarrow> Decided c True \<in> set pre"
      unfolding in_order_def by blast
    from nr p(2) have "\<not> (\<exists>c. x = Decided c False)"
      unfolding rejected_def by auto
    with a show ?thesis by simp
  qed
qed

lemma cleared_snoc:
  assumes "cleared A t" and "\<And>c. needs ev = Some c \<Longrightarrow> c \<in> A" and "\<And>c. ev \<noteq> Decided c False"
  shows "cleared A (t @ [ev])"
proof -
  from assms(1) have g: "in_order t" and nr: "\<not> rejected t" and a: "\<forall>c \<in> A. Decided c True \<in> set t"
    by (simp_all add: cleared_def)
  have "in_order (t @ [ev])" using g nr
  proof (rule in_order_snoc)
    fix c assume "needs ev = Some c"
    with assms(2) a show "Decided c True \<in> set t" by blast
  qed
  moreover have "\<not> rejected (t @ [ev])" using nr assms(3) by (auto simp: rejected_def)
  ultimately show ?thesis using a by (simp add: cleared_def)
qed

lemma cleared_approve:
  assumes "cleared A t"
  shows "cleared (insert c A) (t @ [Decided c True])"
proof -
  have "cleared A (t @ [Decided c True])" using assms by (rule cleared_snoc) simp_all
  then show ?thesis by (simp add: cleared_def)
qed

lemma cleared_reject:
  assumes "cleared A t"
  shows "in_order (t @ [Decided c False])"
  using assms by (intro in_order_snoc) (simp_all add: cleared_def)

lemma cleared_finished: "cleared A t \<Longrightarrow> finished e t"
  by (simp add: cleared_def finished_def)

lemma cleared_mono: "cleared A t \<Longrightarrow> B \<subseteq> A \<Longrightarrow> cleared B t"
  by (auto simp: cleared_def)

subsection \<open>Rules for sequencing and for each operation\<close>

lemma triple_ret: "(\<And>t. P t \<Longrightarrow> Q x t) \<Longrightarrow> triple P (ret x) Q"
  by (simp add: triple_def ret_def)

lemma triple_raise: "(\<And>t. P t \<Longrightarrow> finished e t) \<Longrightarrow> triple P (raise e) Q"
  by (simp add: triple_def raise_def)

lemma triple_bind:
  assumes m: "triple P m R" and f: "\<And>x. triple (R x) (f x) Q"
  shows "triple P (bind m f) Q"
  unfolding triple_def
proof (intro allI impI)
  fix w r w'
  assume P: "P (trace w)" and b: "bind m f w = (r, w')"
  obtain r1 w1 where mw: "m w = (r1, w1)" by (cases "m w")
  show "case r of Return x \<Rightarrow> Q x (trace w') | Raise e \<Rightarrow> finished e (trace w')"
  proof (cases r1)
    case (Return x)
    with m P mw have "R x (trace w1)" by (auto simp: triple_def)
    moreover from b mw Return have "f x w1 = (r, w')" by (simp add: bind_def)
    ultimately show ?thesis using f [of x] unfolding triple_def by blast
  next
    case (Raise e)
    with m P mw have "finished e (trace w1)" by (auto simp: triple_def)
    moreover from b mw Raise have "r = Raise e \<and> w' = w1" by (simp add: bind_def)
    ultimately show ?thesis by simp
  qed
qed

lemma triple_weaken:
  assumes "triple P m Q" and "\<And>t. P' t \<Longrightarrow> P t" and "\<And>x t. Q x t \<Longrightarrow> Q' x t"
  shows "triple P' m Q'"
  using assms unfolding triple_def by (fastforce split: outcome.splits)

lemma triple_log:
  assumes "\<And>c. needs ev = Some c \<Longrightarrow> c \<in> A" and "\<And>c. ev \<noteq> Decided c False"
  shows "triple (cleared A) (log ev) (\<lambda>_. cleared A)"
  using assms by (auto simp: triple_def log_def intro: cleared_snoc)

lemma after_Command:
  "cleared A t \<Longrightarrow> cleared A (t @ [Command argv]) \<and> finished e (t @ [Command argv])"
proof -
  assume "cleared A t"
  then have "cleared A (t @ [Command argv])" by (rule cleared_snoc) simp_all
  then show ?thesis by (simp add: cleared_finished)
qed

lemma after_ClaudeCall:
  "cleared A t \<Longrightarrow> cleared A (t @ [ClaudeCall]) \<and> finished e (t @ [ClaudeCall])"
proof -
  assume "cleared A t"
  then have "cleared A (t @ [ClaudeCall])" by (rule cleared_snoc) simp_all
  then show ?thesis by (simp add: cleared_finished)
qed

lemma triple_run_cmd: "triple (cleared A) (run_cmd E argv) (\<lambda>_. cleared A)"
  by (auto simp: triple_def run_cmd_def after_Command split: prod.splits sum.splits)

lemma triple_save_full_output:
  "triple (cleared A) (save_full_output E d a ph c) (\<lambda>_. cleared A)"
  by (auto simp: triple_def save_full_output_def Let_def cleared_finished split: option.splits)

lemma triple_create_research_document:
  "triple (cleared A) (create_research_document E topic kb ce docs) (\<lambda>_. cleared A)"
  by (auto simp: triple_def create_research_document_def cleared_finished after_ClaudeCall
      split: option.splits prod.splits sum.splits if_splits)

lemma triple_break_into_tasks:
  "triple (cleared A) (break_into_tasks E task rs) (\<lambda>_. cleared A)"
  by (auto simp: triple_def break_into_tasks_def cleared_finished after_ClaudeCall
      split: option.splits prod.splits sum.splits if_splits)

lemma triple_request_approval:
  "triple (cleared A) (request_approval c data)
     (\<lambda>b. if b then cleared (insert c A) else in_order)"
  by (auto simp: triple_def request_approval_def cleared_finished cleared_approve
      cleared_reject split: prod.splits outcome.splits)

lemma triple_create_issue: "triple (cleared A) (create_issue E ttl body labels) (\<lambda>_. cleared A)"
  unfolding create_issue_def
  apply (rule triple_bind [OF triple_run_cmd])
  subgoal for x by (cases x) (auto intro: triple_ret)
  done

lemma triple_comment_issue: "triple (cleared A) (comment_issue E n comment) (\<lambda>_. cleared A)"
  unfolding comment_issue_def
  by (cases n) (auto intro!: triple_raise triple_bind [OF triple_run_cmd] triple_ret cleared_finished)

lemma triple_close_issue: "triple (cleared A) (close_issue E n) (\<lambda>_. cleared A)"
  unfolding close_issue_def
  by (cases n) (auto intro!: triple_raise triple_bind [OF triple_run_cmd] triple_ret cleared_finished)

lemma triple_create_worktree:
  "triple (cleared A) (create_worktree E base b i) (\<lambda>_. cleared A)"
proof -
  have "triple (cleared A)
     (bind (run_cmd E [''git'', ''worktree'', ''add'', worktree_path base b, ''-b'', b])
        (\<lambda>(returncode, out). if returncode = 0 then ret (Some (worktree_path base b)) else ret None))
     (\<lambda>_. cleared A)"
    apply (rule triple_bind [OF triple_run_cmd])
    subgoal for x by (cases x) (auto intro: triple_ret)
    done
  then show ?thesis
    by (auto simp: triple_def create_worktree_def Let_def)
qed

lemma triple_merge_worktree:
  "triple (cleared A) (merge_worktree E base b) (\<lambda>_. cleared A)"
proof -
  have "triple (cleared A)
     (bind (run_cmd E [''git'', ''checkout'', ''main'']) (\<lambda>_.
      bind (run_cmd E [''git'', ''merge'', ''--no-ff'', b]) (\<lambda>_.
      bind (run_cmd E [''git'', ''worktree'', ''remove'', worktree_path base b]) (\<lambda>_.
      bind (run_cmd E [''git'', ''branch'', ''-d'', b]) (\<lambda>_.
      ret True)))))
     (\<lambda>_. cleared A)"
    by (intro triple_bind [OF triple_run_cmd] triple_ret)
  then show ?thesis
    by (auto simp: triple_def merge_worktree_def Let_def)
qed

lemma triple_research_execute:
  "triple (cleared A) (research_execute E base topic sources) (\<lambda>_. cleared A)"
  unfolding research_execute_def Let_def
  apply (rule triple_bind [OF triple_log])
    apply simp
   apply simp
  apply (rule triple_bind [OF triple_create_research_document])
  apply (rule triple_bind [OF triple_save_full_output])
  apply (rule triple_ret)
  apply assumption
  done

lemma triple_plan_execute:
  "checkpoint_of Research \<in> A \<Longrightarrow>
   triple (cleared A) (plan_execute E base task rs) (\<lambda>_. cleared A)"
  unfolding plan_execute_def Let_def
  apply (rule triple_bind [OF triple_log])
    apply simp
   apply simp
  apply (rule triple_bind [OF triple_break_into_tasks])
  apply (rule triple_bind [OF triple_save_full_output])
  apply (rule triple_ret)
  apply assumption
  done

lemma triple_implement_execute:
  "checkpoint_of Plan \<in> A \<Longrightarrow>
   triple (cleared A) (implement_execute E base wt ps task) (\<lambda>_. cleared A)"
  unfolding implement_execute_def Let_def
  apply (rule triple_bind [OF triple_log])
    apply simp
   apply simp
  apply (rule triple_bind [OF triple_save_full_output])
  apply (rule triple_ret)
  apply assumption
  done

lemma triple_validate_execute:
  "checkpoint_of Implement \<in> A \<Longrightarrow>
   triple (cleared A) (validate_execute E base wt task) (\<lambda>_. cleared A)"
  unfolding validate_execute_def Let_def
  apply (rule triple_bind [OF triple_log])
    apply simp
   apply simp
  apply (rule triple_bind [OF triple_save_full_output])
  apply (rule triple_ret)
  apply assumption
  done

lemma triple_exit: "triple in_order (raise (SystemExit 1)) Q"
  by (rule triple_raise) (simp add: finished_def)

lemma triple_phase_1:
  "triple (cleared {}) (phase_1_research E base task) (\<lambda>_. cleared {checkpoint_of Research})"
  unfolding phase_1_research_def
  apply (rule triple_bind [OF triple_log])
    apply simp
   apply simp
  apply (rule triple_bind [OF triple_create_issue])
  apply (rule triple_bind [OF triple_research_execute])
  apply (rule triple_bind [OF triple_request_approval])
  subgoal for u issue result approved
    apply (cases approved)
     apply (simp only: if_True not_True_eq_False if_False)
     apply (rule triple_bind [OF triple_comment_issue])
     apply (rule triple_bind [OF triple_close_issue])
     apply (rule triple_ret)
     apply assumption
    apply (simp only: if_True not_False_eq_True if_False)
    apply (rule triple_exit)
    done
  done

lemma triple_phase_2:
  "triple (cleared {checkpoint_of Research}) (phase_2_plan E base task ri)
     (\<lambda>_. cleared {checkpoint_of Plan})"
  unfolding phase_2_plan_def
  apply (rule triple_bind [OF triple_log])
    apply simp
   apply simp
  apply (rule triple_bind [OF triple_create_issue])
  apply (rule triple_bind [OF triple_plan_execute])
   apply simp
  apply (rule triple_bind [OF triple_request_approval])
  subgoal for u issue result approved
    apply (cases approved)
     apply (simp only: if_True not_True_eq_False if_False)
     apply (rule triple_bind [OF triple_comment_issue])
     apply (rule triple_bind [OF triple_close_issue])
     apply (rule triple_ret)
     apply (erule cleared_mono)
     apply simp
    apply (simp only: if_True not_False_eq_True if_False)
    apply (rule triple_exit)
    done
  done

lemma triple_phase_3:
  "triple (cleared {checkpoint_of Plan}) (phase_3_implement E base task pi)
     (\<lambda>r. cleared (approved_by r))"
  unfolding phase_3_implement_def Let_def
  apply (rule triple_bind [OF triple_log])
    apply simp
   apply simp
  apply (rule triple_bind [OF triple_create_worktree])
  subgoal for u created
    apply (cases created)
     apply (simp only: option.case)
     apply (rule triple_ret)
     apply (simp add: approved_by_def)
     apply (erule cleared_mono)
     apply simp
    apply (simp only: option.case)
    apply (rule triple_bind [OF triple_implement_execute])
     apply simp
    apply (rule triple_bind [OF triple_request_approval])
    subgoal for wt result approved
      apply (cases approved)
       apply (simp only: if_True not_True_eq_False if_False)
       apply (rule triple_ret)
       apply (simp add: approved_by_def)
       apply (erule cleared_mono)
       apply simp
      apply (simp only: if_True not_False_eq_True if_False)
      apply (rule triple_exit)
      done
    done
  done

lemma triple_phase_4:
  "triple (cleared (approved_by ir)) (phase_4_validate E base ir)
     (\<lambda>_. cleared {checkpoint_of Validate})"
  unfolding phase_4_validate_def
  apply (rule triple_bind [OF triple_log])
    apply simp
   apply simp
  apply (cases ir)
   apply (simp only: option.case)
   apply (rule triple_raise)
   apply (erule cleared_finished)
  apply (simp only: option.case)
  apply (rule triple_bind [OF triple_validate_execute])
   apply (simp add: approved_by_def)
  apply (rule triple_bind [OF triple_request_approval])
  subgoal for u info result approved
    apply (cases approved)
     apply (simp only: if_True not_True_eq_False if_False)
     apply (rule triple_ret)
     apply (erule cleared_mono)
     apply simp
    apply (simp only: if_True not_False_eq_True if_False)
    apply (rule triple_exit)
    done
  done

lemma triple_phase_5:
  "triple (cleared {checkpoint_of Validate}) (phase_5_integrate E base ir vr)
     (\<lambda>_. cleared {checkpoint_of Validate})"
  unfolding phase_5_integrate_def
  apply (rule triple_bind [OF triple_log])
    apply simp
   apply simp
  apply (cases ir)
   apply (simp only: option.case)
   apply (rule triple_ret)
   apply assumption
  apply (simp only: option.case)
  subgoal for u info
    apply (cases "branch info = []")
     apply (simp only: not_True_eq_False if_False refl)
     apply (rule triple_ret)
     apply assumption
    apply (simp only: not_False_eq_True if_True)
    apply (rule triple_bind [OF triple_merge_worktree])
    apply (rule triple_ret)
    apply assumption
    done
  done

lemma triple_run_workflow:
  "triple (cleared {}) (run_workflow E base task) (\<lambda>_. cleared {checkpoint_of Validate})"
  unfolding run_workflow_def
  apply (rule triple_bind [OF triple_phase_1])
  apply (rule triple_bind [OF triple_phase_2])
  apply (rule triple_bind [OF triple_phase_3])
  apply (rule triple_bind [OF triple_phase_4])
  apply (rule triple_phase_5)
  done

lemma run_workflow_in_order:
  assumes "run_workflow E base task w = (r, w')" and "trace w = []"
  shows "in_order (trace w') \<and> (rejected (trace w') \<longrightarrow> r = Raise (SystemExit 1))"
proof -
  have "cleared {} (trace w)" using assms(2) by (simp add: cleared_def in_order_Nil rejected_def)
  with triple_run_workflow [of E base task] assms(1)
  have "case r of Return x \<Rightarrow> cleared {checkpoint_of Validate} (trace w')
            | Raise e \<Rightarrow> finished e (trace w')"
    unfolding triple_def by blast
  then show ?thesis
    by (cases r) (auto simp: cleared_def finished_def)
qed

text \<open>
  C2: in every run of \<open>run_workflow\<close> the agent of phase 2, 3 or 4 is entered only
  after the checkpoint of the phase before it returned approval, and phase 5 is entered
  only after the validation checkpoint returned approval; when a checkpoint returns
  a rejection nothing follows it in the trace and the run ends with \<open>sys.exit(1)\<close>.
\<close>

theorem run_workflow_checkpoints:
  assumes "run_workflow E base task w = (r, w')" and "trace w = []"
  shows "(\<forall>pre post. trace w' = pre @ Executed Plan # post \<longrightarrow>
            Decided (checkpoint_of Research) True \<in> set pre)
       \<and> (\<forall>pre post. trace w' = pre @ Executed Implement # post \<longrightarrow>
            Decided (checkpoint_of Plan) True \<in> set pre)
       \<and> (\<forall>pre post. trace w' = pre @ Executed Validate # post \<longrightarrow>
            Decided (checkpoint_of Implement) True \<in> set pre)
       \<and> (\<forall>pre post. trace w' = pre @ Started Integrate # post \<longrightarrow>
            Decided (checkpoint_of Validate) True \<in> set pre)
       \<and> (\<forall>pre c post. trace w' = pre @ Decided c False # post \<longrightarrow>
            post = [] \<and> r = Raise (SystemExit 1))"
proof -
  from run_workflow_in_order [OF assms]
  have g: "in_order (trace w')" and x: "rejected (trace w') \<longrightarrow> r = Raise (SystemExit 1)"
    by simp_all
  have n: "Decided c True \<in> set pre" if "trace w' = pre @ ev # post" "needs ev = Some c"
    for pre ev post c
    using g that unfolding in_order_def by blast
  have a: "post = [] \<and> r = Raise (SystemExit 1)" if "trace w' = pre @ Decided c False # post"
    for pre c post
  proof -
    from g that have "post = []" unfolding in_order_def by blast
    moreover from that have "rejected (trace w')" by (auto simp: rejected_def)
    ultimately show ?thesis using x by simp
  qed
  show ?thesis
    using n [where ev = "Executed Plan"] n [where ev = "Executed Implement"]
      n [where ev = "Executed Validate"] n [where ev = "Started Integrate"] a
    by simp
qed

text \<open>
  A run in which the research is approved and the plan is rejected.
\<close>

theorem run_workflow_checkpoints_witness:
  "trace (sim_world (sim_repo [] [] []) [''y'', ''no'']) = []
   \<and> (\<exists>pre post. trace (snd (run_workflow replying_env ''/repo'' ''add login''
                          (sim_world (sim_repo [] [] []) [''y'', ''no''])))
          = pre @ Executed Plan # post
        \<and> Decided (checkpoint_of Research) True \<in> set pre)
   \<and> (\<exists>pre. trace (snd (run_workflow replying_env ''/repo'' ''add login''
                          (sim_world (sim_repo [] [] []) [''y'', ''no''])))
          = pre @ [Decided (checkpoint_of Plan) False])
   \<and> fst (run_workflow replying_env ''/repo'' ''add login''
            (sim_world (sim_repo [] [] []) [''y'', ''no''])) = Raise (SystemExit 1)"
proof -
  let ?w = "sim_world (sim_repo [] [] []) [''y'', ''no'']"
  let ?run = "run_workflow replying_env ''/repo'' ''add login'' ?w"
  have t0: "trace ?w = []" by (simp add: sim_world_def)
  have run: "?run = (fst ?run, snd ?run)" by simp
  note ordered = run_workflow_checkpoints [OF run t0]
  have ev: "filter (\<lambda>e. e \<in> set [Executed Plan, Decided ''Plan Review'' False]) (trace (snd ?run))
              = [Executed Plan, Decided ''Plan Review'' False]"
    by code_simp
  have "Executed Plan \<in> set (filter (\<lambda>e. e \<in> set [Executed Plan, Decided ''Plan Review'' False]) (trace (snd ?run)))"
    unfolding ev by simp
  then have "Executed Plan \<in> set (trace (snd ?run))" by simp
  then obtain pre post where p: "trace (snd ?run) = pre @ Executed Plan # post"
    by (auto dest: split_list)
  with ordered have a: "Decided (checkpoint_of Research) True \<in> set pre" by blast
  have "Decided ''Plan Review'' False \<in> set (filter (\<lambda>e. e \<in> set [Executed Plan, Decided ''Plan Review'' False]) (trace (snd ?run)))"
    unfolding ev by simp
  then have "Decided (checkpoint_of Plan) False \<in> set (trace (snd ?run))"
    by (simp add: checkpoint_of_def)
  then obtain pre2 post2 where q: "trace (snd ?run) = pre2 @ Decided (checkpoint_of Plan) False # post2"
    by (auto dest: split_list)
  with ordered have b: "post2 = [] \<and> fst ?run = Raise (SystemExit 1)" by blast
  from t0 p a q b show ?thesis by blast
qed

end
